theory Spec2Isabelle
  imports Complex_Main "HOL-Library.Multiset" "HOL-Library.Sublist"
begin

section \<open>Numbers\<close>

text \<open>
  Dollar amounts are JavaScript numbers. They are modelled as reals: finite values, with
  rounding not modelled. The one place where the source divides, the percentage of
  \<open>recordSpend\<close>, can divide by a zero total; the quotient is therefore a \<open>jsnum\<close>,
  which has the two infinities and NaN that JavaScript produces there.
\<close>

datatype jsnum = Num real | PosInfinity | NegInfinity | NaN

definition js_div :: "real \<Rightarrow> real \<Rightarrow> jsnum" where
  "js_div a b =
     (if b \<noteq> 0 then Num (a / b)
      else if 0 < a then PosInfinity
      else if a < 0 then NegInfinity
      else NaN)"

fun js_mul :: "jsnum \<Rightarrow> real \<Rightarrow> jsnum" where
  "js_mul (Num a) b = Num (a * b)"
| "js_mul PosInfinity b = (if 0 < b then PosInfinity else if b < 0 then NegInfinity else NaN)"
| "js_mul NegInfinity b = (if 0 < b then NegInfinity else if b < 0 then PosInfinity else NaN)"
| "js_mul NaN b = NaN"

fun js_ge :: "jsnum \<Rightarrow> real \<Rightarrow> bool" where
  "js_ge (Num a) k = (k \<le> a)"
| "js_ge PosInfinity k = True"
| "js_ge NegInfinity k = False"
| "js_ge NaN k = False"

section \<open>BudgetManager (orchestrator/budget.ts)\<close>

record AgentBudget =
  agentId :: string
  allocated :: real
  spent :: real

datatype BudgetEvent =
    Spend string real real real
  | Warning string jsnum
  | Exhausted string

text \<open>
  The class fields. \<open>agentBudgets\<close> is the \<open>Map\<close> from agent id to sub-ledger. The
  manager is an event emitter; the events a call emits are returned by the call, in order.
\<close>

record BudgetManager =
  totalBudget :: real
  totalSpent :: real
  agentBudgets :: "string \<rightharpoonup> AgentBudget"
  reserve :: real

text \<open>\<open>constructor(totalBudget, reservePercent = 0.1)\<close>\<close>

definition new_BudgetManager :: "real \<Rightarrow> real option \<Rightarrow> BudgetManager" where
  "new_BudgetManager total_budget reservePercent =
     \<lparr>totalBudget = total_budget, totalSpent = 0, agentBudgets = Map.empty,
      reserve = total_budget * (case reservePercent of None \<Rightarrow> 0.1 | Some p \<Rightarrow> p)\<rparr>"

definition get_spent :: "BudgetManager \<Rightarrow> real" where
  "get_spent bm = totalSpent bm"

definition remaining :: "BudgetManager \<Rightarrow> real" where
  "remaining bm = max 0 (totalBudget bm - totalSpent bm)"

definition get_budget :: "BudgetManager \<Rightarrow> real" where
  "get_budget bm = totalBudget bm"

definition allocate :: "BudgetManager \<Rightarrow> string \<Rightarrow> real \<Rightarrow> real \<times> BudgetManager" where
  "allocate bm aid requested =
     (let available = totalBudget bm - totalSpent bm - reserve bm;
          alloc = min requested (max 0 available)
      in (alloc,
          bm\<lparr>agentBudgets := (agentBudgets bm)
                (aid \<mapsto> \<lparr>agentId = aid, allocated = alloc, spent = 0\<rparr>)\<rparr>))"

definition percentUsed :: "BudgetManager \<Rightarrow> jsnum" where
  "percentUsed bm = js_mul (js_div (totalSpent bm) (totalBudget bm)) 100"

text \<open>
  \<open>recordSpend\<close> returns its boolean, the events it emitted, and the manager after the
  call. Both branches of the threshold test emit the same \<open>warning\<close> event.
\<close>

definition recordSpend ::
  "BudgetManager \<Rightarrow> string \<Rightarrow> real \<Rightarrow> bool \<times> BudgetEvent list \<times> BudgetManager" where
  "recordSpend bm aid amount =
     (let bm1 = bm\<lparr>totalSpent := totalSpent bm + amount\<rparr>;
          bm2 = (case agentBudgets bm1 aid of
                   None \<Rightarrow> bm1
                 | Some ab \<Rightarrow>
                     bm1\<lparr>agentBudgets := (agentBudgets bm1)
                           (aid \<mapsto> ab\<lparr>spent := spent ab + amount\<rparr>)\<rparr>);
          remaining_now = totalBudget bm2 - totalSpent bm2;
          ev_spend = [Spend aid amount (totalSpent bm2) remaining_now];
          pct = percentUsed bm2;
          ev_warning =
            (if js_ge pct 90 then [Warning aid pct]
             else if js_ge pct 80 then [Warning aid pct]
             else [])
      in if totalBudget bm2 \<le> totalSpent bm2
         then (False, ev_spend @ ev_warning @ [Exhausted aid], bm2)
         else (True, ev_spend @ ev_warning, bm2))"

definition canSpend :: "BudgetManager \<Rightarrow> string \<Rightarrow> bool" where
  "canSpend bm aid =
     (case agentBudgets bm aid of
        None \<Rightarrow> False
      | Some ab \<Rightarrow> spent ab < allocated ab \<and> totalSpent bm < totalBudget bm)"

definition release :: "BudgetManager \<Rightarrow> string \<Rightarrow> real \<times> BudgetManager" where
  "release bm aid =
     (case agentBudgets bm aid of
        None \<Rightarrow> (0, bm)
      | Some ab \<Rightarrow>
          (allocated ab - spent ab, bm\<lparr>agentBudgets := (agentBudgets bm)(aid := None)\<rparr>))"

fun is_warning :: "BudgetEvent \<Rightarrow> bool" where
  "is_warning (Warning a p) = True"
| "is_warning e = False"

definition warnings_of :: "bool \<times> BudgetEvent list \<times> BudgetManager \<Rightarrow> BudgetEvent list" where
  "warnings_of r = filter is_warning (fst (snd r))"

text \<open>
  The specification's wording of the warning rule: usage crosses a band on a call when it
  was below the band before the call and is at or above it after the call.
\<close>

definition crosses_band :: "BudgetManager \<Rightarrow> BudgetManager \<Rightarrow> real \<Rightarrow> bool" where
  "crosses_band before after k = (\<not> js_ge (percentUsed before) k \<and> js_ge (percentUsed after) k)"

definition spec_warning_fires :: "BudgetManager \<Rightarrow> string \<Rightarrow> real \<Rightarrow> bool" where
  "spec_warning_fires bm aid amount =
     (let after = snd (snd (recordSpend bm aid amount))
      in crosses_band bm after 80 \<or> crosses_band bm after 90)"

text \<open>The sum of the allocations of the live sub-ledgers with the given ids.\<close>

definition live_allocated :: "BudgetManager \<Rightarrow> string list \<Rightarrow> real" where
  "live_allocated bm ids =
     sum_list (map (\<lambda>i. case agentBudgets bm i of None \<Rightarrow> 0 | Some ab \<Rightarrow> allocated ab) ids)"

section \<open>Provider and tool interfaces (providers/provider.ts, tools/registry.ts)\<close>

text \<open>
  A thrown JavaScript \<open>Error\<close> is a value carrying its message. Tool arguments and tool
  schemas are opaque to the scheduler and kept as text.
\<close>

datatype Exn = Error (message: string)

type_synonym Args = string

record ToolDefinition =
  td_name :: string
  td_description :: string
  td_parameters :: string

record ToolCall =
  tc_id :: string
  tc_name :: string
  tc_arguments :: Args

record ToolResult =
  toolCallId :: string
  tr_content :: string

record ImageAttachment =
  img_type :: string
  mediaType :: string
  img_data :: string

datatype Role = User | Assistant | Tool

record Message =
  role :: Role
  content :: string
  images :: "ImageAttachment list option"
  toolCalls :: "ToolCall list option"
  toolResults :: "ToolResult list option"

record Usage =
  inputTokens :: int
  outputTokens :: int
  cost :: real

datatype StopReason = End_turn | Tool_use | Max_tokens | Budget

record LLMResponse =
  resp_content :: string
  resp_toolCalls :: "ToolCall list"
  usage :: Usage
  stopReason :: StopReason

text \<open>
  The backend and the tools are external and have effects. \<open>'w\<close> is the state of the
  world they act on; \<open>chat\<close> either rejects with an exception or resolves to a response.
\<close>

type_synonym 'w LLMProvider =
  "Message list \<Rightarrow> ToolDefinition list \<Rightarrow> string \<Rightarrow> string \<Rightarrow> 'w \<Rightarrow> (Exn + LLMResponse) \<times> 'w"

record 'w ToolHandler =
  th_definition :: ToolDefinition
  th_execute :: "Args \<Rightarrow> 'w \<Rightarrow> (Exn + string) \<times> 'w"

text \<open>The registry's \<open>Map\<close> from tool name to handler, in insertion order.\<close>

type_synonym 'w ToolRegistry = "(string \<times> 'w ToolHandler) list"

definition getDefinitions :: "'w ToolRegistry \<Rightarrow> ToolDefinition list" where
  "getDefinitions reg = map (\<lambda>(n, t). th_definition t) reg"

definition registry_execute :: "'w ToolRegistry \<Rightarrow> string \<Rightarrow> Args \<Rightarrow> 'w \<Rightarrow> string \<times> 'w" where
  "registry_execute reg name args w =
     (case map_of reg name of
        None \<Rightarrow> (''Error: Unknown tool '' @ [CHR 0x22] @ name @ [CHR 0x22], w)
      | Some tool \<Rightarrow>
          (case th_execute tool args w of
             (Inr out, w1) \<Rightarrow> (out, w1)
           | (Inl err, w1) \<Rightarrow> (''Error executing '' @ name @ '': '' @ message err, w1)))"

section \<open>Agent (agents/agent.ts)\<close>

record 'w AgentConfig =
  cfg_id :: "string option"
  cfg_name :: string
  model :: string
  systemPrompt :: string
  provider :: "'w LLMProvider"
  tools :: "'w ToolRegistry"
  budget :: real
  maxTurns :: "int option"

datatype AgentStatus = Completed | BudgetExhausted | MaxTurns | ErrorStatus

fun status_text :: "AgentStatus \<Rightarrow> string" where
  "status_text Completed = ''completed''"
| "status_text BudgetExhausted = ''budget_exhausted''"
| "status_text MaxTurns = ''max_turns''"
| "status_text ErrorStatus = ''error''"

record AgentResult =
  res_id :: string
  res_name :: string
  res_output :: string
  res_totalCost :: real
  res_totalInputTokens :: int
  res_totalOutputTokens :: int
  res_turns :: int
  status :: AgentStatus

datatype AgentEvent =
    Thinking string
  | Tool_call string Args
  | Tool_result string string
  | Cost_update real real
  | Done AgentResult
  | Error_event Exn

text \<open>
  The agent object. \<open>listeners\<close> stands for the handlers registered with \<open>on\<close>: they act
  on a listener state \<open>'l\<close> (in the orchestrator, the task's ledger and event log).
\<close>

record ('l, 'w) Agent =
  agent_id :: string
  agent_name :: string
  config :: "'w AgentConfig"
  messages :: "Message list"
  totalCost :: real
  totalInputTokens :: int
  totalOutputTokens :: int
  turns :: int
  aborted :: bool
  listeners :: "AgentEvent \<Rightarrow> 'l \<Rightarrow> 'l"

text \<open>\<open>constructor(config)\<close>: the id is \<open>config.id ?? uuid()\<close>.\<close>

definition new_Agent ::
  "('w \<Rightarrow> string \<times> 'w) \<Rightarrow> 'w AgentConfig \<Rightarrow> 'w \<Rightarrow> ('l, 'w) Agent \<times> 'w" where
  "new_Agent uuid cfg w =
     (let (i, w1) = (case cfg_id cfg of Some i \<Rightarrow> (i, w) | None \<Rightarrow> uuid w)
      in (\<lparr>agent_id = i, agent_name = cfg_name cfg, config = cfg, messages = [],
           totalCost = 0, totalInputTokens = 0, totalOutputTokens = 0, turns = 0,
           aborted = False, listeners = (\<lambda>ev l. l)\<rparr>, w1))"

text \<open>\<open>on(event, handler)\<close>: the new handler runs after those already registered.\<close>

definition on_event ::
  "('l, 'w) Agent \<Rightarrow> (AgentEvent \<Rightarrow> 'l \<Rightarrow> 'l) \<Rightarrow> ('l, 'w) Agent" where
  "on_event a h = a\<lparr>listeners := (\<lambda>ev l. h ev (listeners a ev l))\<rparr>"

definition abort :: "('l, 'w) Agent \<Rightarrow> ('l, 'w) Agent" where
  "abort a = a\<lparr>aborted := True\<rparr>"

definition finish ::
  "('l, 'w) Agent \<Rightarrow> AgentStatus \<Rightarrow> string option \<Rightarrow> 'l \<Rightarrow> AgentResult \<times> 'l" where
  "finish a st out l =
     (let spoken = filter (\<lambda>m. role m = Assistant \<and> content m \<noteq> []) (messages a);
          finalOutput =
            (case out of
               Some text \<Rightarrow> text
             | None \<Rightarrow>
                 if spoken \<noteq> [] then content (last spoken)
                 else ''Agent '' @ agent_name a @ '' finished with status: '' @ status_text st);
          result = \<lparr>res_id = agent_id a, res_name = agent_name a, res_output = finalOutput,
                    res_totalCost = totalCost a, res_totalInputTokens = totalInputTokens a,
                    res_totalOutputTokens = totalOutputTokens a, res_turns = turns a,
                    status = st\<rparr>
      in (result, listeners a (Done result) l))"

text \<open>
  The tool batch of one turn, in the order received. \<open>abort()\<close> can be called by the host
  while the agent awaits a tool or the backend: \<open>abort_called\<close> reads the host's request
  from the world after each await, and the flag is only tested at the top of the loop.
\<close>

fun execute_toolCalls ::
  "('l, 'w) Agent \<Rightarrow> ('w \<Rightarrow> bool) \<Rightarrow> ToolCall list \<Rightarrow> ToolResult list \<Rightarrow> bool \<times> 'l \<times> 'w
     \<Rightarrow> ToolResult list \<times> bool \<times> 'l \<times> 'w" where
  "execute_toolCalls a abort_called [] acc (ab, l, w) = (acc, ab, l, w)"
| "execute_toolCalls a abort_called (tc # tcs) acc (ab, l, w) =
     (let l1 = listeners a (Tool_call (tc_name tc) (tc_arguments tc)) l;
          (result, w1) = registry_execute (tools (config a)) (tc_name tc) (tc_arguments tc) w;
          l2 = listeners a (Tool_result (tc_name tc) result) l1
      in execute_toolCalls a abort_called tcs
           (acc @ [\<lparr>toolCallId = tc_id tc, tr_content = result\<rparr>])
           (ab \<or> abort_called w1, l2, w1))"

text \<open>
  The \<open>while\<close> loop of \<open>run\<close> with its \<open>try\<close>/\<open>catch\<close>: a rejected backend call is caught,
  reported with \<open>error\<close> and ends the run with status \<open>error\<close>.
\<close>

function run_loop ::
  "('w \<Rightarrow> bool) \<Rightarrow> int \<Rightarrow> ('l, 'w) Agent \<Rightarrow> 'l \<Rightarrow> 'w \<Rightarrow> AgentResult \<times> ('l, 'w) Agent \<times> 'l \<times> 'w" where
  "run_loop abort_called maxT a l w =
     (if turns a < maxT \<and> \<not> aborted a then
        if budget (config a) \<le> totalCost a then
          (let (r, l1) = finish a BudgetExhausted None l in (r, a, l1, w))
        else
          (case provider (config a) (messages a) (getDefinitions (tools (config a)))
                  (model (config a)) (systemPrompt (config a)) w of
             (Inl err, w1) \<Rightarrow>
               (let l1 = listeners a (Error_event err) l;
                    (r, l2) = finish a ErrorStatus (Some (''Error: '' @ message err)) l1
                in (r, a, l2, w1))
           | (Inr response, w1) \<Rightarrow>
               (let a1 = a\<lparr>totalCost := totalCost a + cost (usage response),
                           totalInputTokens := totalInputTokens a + inputTokens (usage response),
                           totalOutputTokens := totalOutputTokens a + outputTokens (usage response),
                           turns := turns a + 1,
                           aborted := aborted a \<or> abort_called w1\<rparr>;
                    l1 = listeners a (Cost_update (totalCost a1) (budget (config a))) l;
                    l2 = (if resp_content response \<noteq> []
                          then listeners a (Thinking (resp_content response)) l1 else l1)
                in if resp_toolCalls response = [] then
                     (let a2 = a1\<lparr>messages := messages a1 @
                            [\<lparr>role = Assistant, content = resp_content response, images = None,
                              toolCalls = None, toolResults = None\<rparr>]\<rparr>;
                          (r, l3) = finish a2 Completed (Some (resp_content response)) l2
                      in (r, a2, l3, w1))
                   else
                     (let a2 = a1\<lparr>messages := messages a1 @
                            [\<lparr>role = Assistant, content = resp_content response, images = None,
                              toolCalls = Some (resp_toolCalls response), toolResults = None\<rparr>]\<rparr>;
                          (results, ab, l3, w2) =
                            execute_toolCalls a2 abort_called (resp_toolCalls response) []
                              (aborted a2, l2, w1);
                          a3 = a2\<lparr>messages := messages a2 @
                            [\<lparr>role = Tool, content = [], images = None, toolCalls = None,
                              toolResults = Some results\<rparr>],
                            aborted := ab\<rparr>
                      in run_loop abort_called maxT a3 l3 w2)))
      else
        (let (r, l1) = finish a (if aborted a then ErrorStatus else MaxTurns) None l
         in (r, a, l1, w)))"
  by pat_completeness auto
termination
  by (relation "measure (\<lambda>(abort_called, maxT, a, l, w). nat (maxT - turns a))") auto

declare run_loop.simps [simp del]

definition run ::
  "('w \<Rightarrow> bool) \<Rightarrow> ('l, 'w) Agent \<Rightarrow> string \<Rightarrow> ImageAttachment list option \<Rightarrow> 'l \<Rightarrow> 'w
     \<Rightarrow> AgentResult \<times> ('l, 'w) Agent \<times> 'l \<times> 'w" where
  "run abort_called a task imgs l w =
     (let maxT = (case maxTurns (config a) of None \<Rightarrow> 100 | Some n \<Rightarrow> n);
          initialMessage =
            \<lparr>role = User, content = task,
             images = (case imgs of Some (i # is) \<Rightarrow> Some (i # is) | _ \<Rightarrow> None),
             toolCalls = None, toolResults = None\<rparr>
      in run_loop abort_called maxT (a\<lparr>messages := messages a @ [initialMessage]\<rparr>) l w)"

section \<open>Model table and agent presets (config/models.ts, agents/presets.ts)\<close>

record ModelPricing =
  inputPer1M :: real
  outputPer1M :: real
  contextWindow :: nat
  pricing_provider :: string

definition MODEL_PRICING :: "string \<rightharpoonup> ModelPricing" where
  "MODEL_PRICING =
     [''claude-opus-4-6'' \<mapsto>
        \<lparr>inputPer1M = 15, outputPer1M = 75, contextWindow = 200000, pricing_provider = ''anthropic''\<rparr>,
      ''claude-sonnet-4-5-20250929'' \<mapsto>
        \<lparr>inputPer1M = 3, outputPer1M = 15, contextWindow = 200000, pricing_provider = ''anthropic''\<rparr>,
      ''claude-haiku-4-5-20251001'' \<mapsto>
        \<lparr>inputPer1M = 0.8, outputPer1M = 4, contextWindow = 200000, pricing_provider = ''anthropic''\<rparr>,
      ''gpt-4o'' \<mapsto>
        \<lparr>inputPer1M = 2.5, outputPer1M = 10, contextWindow = 128000, pricing_provider = ''openai''\<rparr>,
      ''gpt-4o-mini'' \<mapsto>
        \<lparr>inputPer1M = 0.15, outputPer1M = 0.6, contextWindow = 128000, pricing_provider = ''openai''\<rparr>,
      ''o1'' \<mapsto>
        \<lparr>inputPer1M = 15, outputPer1M = 60, contextWindow = 200000, pricing_provider = ''openai''\<rparr>,
      ''o3-mini'' \<mapsto>
        \<lparr>inputPer1M = 1.1, outputPer1M = 4.4, contextWindow = 200000, pricing_provider = ''openai''\<rparr>]"

definition getProvider :: "string \<Rightarrow> string" where
  "getProvider m = (case MODEL_PRICING m of Some p \<Rightarrow> pricing_provider p | None \<Rightarrow> ''anthropic'')"

text \<open>
  The presets are a name and a system prompt. The prompts are long fixed texts that the
  scheduler only passes on to the backend; their opening sentence stands for them here.
  The map has the four own keys of the object. A lookup \<open>AGENT_PRESETS[preset]\<close> with a
  property name inherited from \<open>Object.prototype\<close> (\<open>constructor\<close>, \<open>toString\<close>, ...)
  finds a value in JavaScript; such names are outside this model, where every string
  other than the four keys is absent.
\<close>

record Preset =
  preset_name :: string
  preset_systemPrompt :: string

definition AGENT_PRESETS :: "string \<rightharpoonup> Preset" where
  "AGENT_PRESETS =
     [''planner'' \<mapsto>
        \<lparr>preset_name = ''Planner'', preset_systemPrompt = ''You are a task planning agent.''\<rparr>,
      ''coder'' \<mapsto>
        \<lparr>preset_name = ''Coder'',
         preset_systemPrompt = ''You are an autonomous coding agent with full system access.''\<rparr>,
      ''researcher'' \<mapsto>
        \<lparr>preset_name = ''Researcher'', preset_systemPrompt = ''You are a research agent.''\<rparr>,
      ''reviewer'' \<mapsto>
        \<lparr>preset_name = ''Reviewer'',
         preset_systemPrompt = ''You are a code review and testing agent.''\<rparr>]"

section \<open>Orchestrator (orchestrator/orchestrator.ts)\<close>

record TaskConfig =
  task :: string
  task_budget :: real
  task_model :: "string option"
  repo :: "string option"

datatype TaskStatus = TaskCompleted | TaskBudgetExhausted | TaskError

record TaskResult =
  taskId :: string
  result_task :: string
  result_output :: string
  result_totalCost :: real
  agentResults :: "AgentResult list"
  result_status :: TaskStatus

datatype TaskEvent =
    Started string
  | Agent_started string string string
  | Agent_thinking string string
  | Agent_tool_call string string Args
  | Agent_tool_result string string string
  | Agent_done AgentResult
  | Task_cost_update real real
  | Task_completed TaskResult
  | Task_error Exn

text \<open>
  The planner's output is parsed from JSON without validation. A subtask is read at its
  declared shape, except that \<open>agentType\<close> and \<open>complexity\<close> stay the strings they are at
  run time: the preset lookup and the multiplier test act on whatever string was parsed.
\<close>

record SubTask =
  st_id :: int
  description :: string
  agentType :: string
  complexity :: string
  dependsOn :: "int list"

datatype Parsed = ParsedArray "SubTask list" | ParsedOther

text \<open>
  What the task's agents' listeners act on: the task's ledger and the events the
  orchestrator has emitted so far.
\<close>

record TaskState =
  budget_mgr :: BudgetManager
  events :: "TaskEvent list"

definition emit :: "TaskState \<Rightarrow> TaskEvent \<Rightarrow> TaskState" where
  "emit ts ev = ts\<lparr>events := events ts @ [ev]\<rparr>"

text \<open>
  The collaborators outside the scheduler: the id generator, the tool registry loader, the
  JSON parser, the host's calls of \<open>cancelTask\<close> (which abort every active agent), and the
  settings read at start.
\<close>

record 'w Host =
  uuid :: "'w \<Rightarrow> string \<times> 'w"
  createToolRegistry :: "string \<Rightarrow> 'w \<Rightarrow> (Exn + 'w ToolRegistry) \<times> 'w"
  JSON_parse :: "string \<Rightarrow> Exn + Parsed"
  abort_called :: "'w \<Rightarrow> bool"
  defaultModel :: string
  workspaceDir :: string

text \<open>
  The orchestrator's fields that scheduling reads: the configured providers by name and
  the cached tool registry.
\<close>

record 'w Orchestrator =
  providers :: "string \<rightharpoonup> 'w LLMProvider"
  toolRegistry :: "'w ToolRegistry option"

definition orch_getProvider :: "'w Orchestrator \<Rightarrow> string \<Rightarrow> Exn + 'w LLMProvider" where
  "orch_getProvider orch m =
     (let providerName = getProvider m
      in case providers orch providerName of
           None \<Rightarrow>
             Inl (Error (''No '' @ providerName @ '' provider configured. Set '' @
               (if providerName = ''anthropic'' then ''ANTHROPIC_API_KEY'' else ''OPENAI_API_KEY'')))
         | Some p \<Rightarrow> Inr p)"

definition getToolRegistry ::
  "'w Host \<Rightarrow> 'w Orchestrator \<Rightarrow> 'w \<Rightarrow> (Exn + 'w ToolRegistry) \<times> 'w Orchestrator \<times> 'w" where
  "getToolRegistry host orch w =
     (case toolRegistry orch of
        Some reg \<Rightarrow> (Inr reg, orch, w)
      | None \<Rightarrow>
          (case createToolRegistry host (workspaceDir host) w of
             (Inl err, w1) \<Rightarrow> (Inl err, orch, w1)
           | (Inr reg, w1) \<Rightarrow> (Inr reg, orch\<lparr>toolRegistry := Some reg\<rparr>, w1)))"

text \<open>
  The regular expression \<open>/\[[\s\S]*\]/\<close>: from the first opening bracket to the last
  closing bracket after it.
\<close>

definition match_array :: "string \<Rightarrow> string option" where
  "match_array s =
     (let from_open = dropWhile (\<lambda>c. c \<noteq> CHR ''['') s
      in if from_open = [] then None
         else (let to_close = dropWhile (\<lambda>c. c \<noteq> CHR '']'') (rev (tl from_open))
               in if to_close = [] then None else Some (CHR ''['' # rev to_close)))"

text \<open>
  The parsing at the end of \<open>planTask\<close>. The source casts any non-empty parsed array to
  \<open>SubTask[]\<close> without looking at its elements. Here the elements of a parsed array are
  subtasks of the declared shape; an array of other values (which in the source makes the
  sort or the preset lookup throw later) is outside this model.
\<close>

definition parse_plan :: "'w Host \<Rightarrow> string \<Rightarrow> SubTask list" where
  "parse_plan host out =
     (case match_array out of
        None \<Rightarrow> []
      | Some jsonMatch \<Rightarrow>
          (case JSON_parse host jsonMatch of
             Inl err \<Rightarrow> []
           | Inr ParsedOther \<Rightarrow> []
           | Inr (ParsedArray parsed) \<Rightarrow> if 0 < length parsed then parsed else []))"

fun planner_listener :: "AgentEvent \<Rightarrow> TaskState \<Rightarrow> TaskState" where
  "planner_listener (Cost_update c b) ts =
     ts\<lparr>budget_mgr := snd (snd (recordSpend (budget_mgr ts) ''planner'' c))\<rparr>"
| "planner_listener ev ts = ts"

definition plan_prompt :: "string \<Rightarrow> string" where
  "plan_prompt t =
     ''Plan this task. If it'' @ [CHR 0x27] @ ''s simple enough for one agent, return an empty array []. ''
     @ ''Otherwise decompose it into subtasks.'' @ [CHR 0x0A, CHR 0x0A] @ ''Task: '' @ t"

text \<open>
  The planner agent is not entered in the active agents, so \<open>cancelTask\<close> never aborts it.
\<close>

definition planTask ::
  "'w Host \<Rightarrow> 'w Orchestrator \<Rightarrow> string \<Rightarrow> string \<Rightarrow> 'w ToolRegistry \<Rightarrow> real \<Rightarrow> TaskState \<Rightarrow> 'w
     \<Rightarrow> (Exn + SubTask list) \<times> TaskState \<times> 'w" where
  "planTask host orch t m tls bdg ts w =
     (if bdg \<le> 0 then (Inr [], ts, w)
      else
        (case orch_getProvider orch m of
           Inl err \<Rightarrow> (Inl err, ts, w)
         | Inr prov \<Rightarrow>
             (let (agent0, w1) =
                    new_Agent (uuid host)
                      \<lparr>cfg_id = None, cfg_name = ''Planner'', model = m,
                       systemPrompt = preset_systemPrompt (the (AGENT_PRESETS ''planner'')),
                       provider = prov, tools = tls, budget = bdg, maxTurns = None\<rparr> w;
                  agent = on_event agent0 planner_listener;
                  (result, agent1, ts1, w2) = run (\<lambda>w. False) agent (plan_prompt t) None ts w1
              in (Inr (parse_plan host (res_output result)), ts1, w2))))"

fun runAgent_listener :: "string \<Rightarrow> AgentEvent \<Rightarrow> TaskState \<Rightarrow> TaskState" where
  "runAgent_listener aid (Thinking text) ts = emit ts (Agent_thinking aid text)"
| "runAgent_listener aid (Tool_call n args) ts = emit ts (Agent_tool_call aid n args)"
| "runAgent_listener aid (Tool_result n r) ts = emit ts (Agent_tool_result aid n r)"
| "runAgent_listener aid (Cost_update c b) ts =
     (let ts1 = ts\<lparr>budget_mgr := snd (snd (recordSpend (budget_mgr ts) aid c))\<rparr>
      in emit ts1 (Task_cost_update (get_spent (budget_mgr ts1)) (get_budget (budget_mgr ts1))))"
| "runAgent_listener aid ev ts = ts"

text \<open>
  \<open>AGENT_PRESETS[preset]\<close> is undefined for a string that names no preset, and reading its
  \<open>name\<close> then throws a TypeError.
\<close>

definition runAgent ::
  "'w Host \<Rightarrow> 'w Orchestrator \<Rightarrow> string \<Rightarrow> string \<Rightarrow> string \<Rightarrow> string \<Rightarrow> 'w ToolRegistry \<Rightarrow> real
     \<Rightarrow> TaskState \<Rightarrow> 'w \<Rightarrow> (Exn + AgentResult) \<times> TaskState \<times> 'w" where
  "runAgent host orch tid preset t m tls bdg ts w =
     (case orch_getProvider orch m of
        Inl err \<Rightarrow> (Inl err, ts, w)
      | Inr prov \<Rightarrow>
          (case AGENT_PRESETS preset of
             None \<Rightarrow>
               (Inl (Error (''Cannot read properties of undefined (reading '' @ [CHR 0x27] @
                       ''name'' @ [CHR 0x27] @ '')'')), ts, w)
           | Some presetConfig \<Rightarrow>
               (let (agent0, w1) =
                      new_Agent (uuid host)
                        \<lparr>cfg_id = None, cfg_name = preset_name presetConfig, model = m,
                         systemPrompt = preset_systemPrompt presetConfig,
                         provider = prov, tools = tls, budget = bdg, maxTurns = None\<rparr> w;
                    agent = on_event agent0 (runAgent_listener (agent_id agent0));
                    ts1 = emit ts (Agent_started (agent_id agent) (preset_name presetConfig) t);
                    (result, agent1, ts2, w2) = run (abort_called host) agent t None ts1 w1;
                    ts3 = emit ts2 (Agent_done result);
                    (unspent, bm) = release (budget_mgr ts3) (agent_id agent)
                in (Inr result, ts3\<lparr>budget_mgr := bm\<rparr>, w2))))"

subsection \<open>Topological sort\<close>

text \<open>
  \<open>visit\<close> is the closure of \<open>topologicalSort\<close>; \<open>visit_deps\<close> is its loop over
  \<open>task.dependsOn\<close>. The state is the \<open>visited\<close> set and the \<open>sorted\<close> array. A
  dependency id that no subtask carries is skipped.
\<close>

function visit :: "SubTask list \<Rightarrow> SubTask \<Rightarrow> int set \<times> SubTask list \<Rightarrow> int set \<times> SubTask list"
  and visit_deps :: "SubTask list \<Rightarrow> int list \<Rightarrow> int set \<times> SubTask list \<Rightarrow> int set \<times> SubTask list"
where
  "visit subtasks t (visited, sorted_out) =
     (if st_id t \<in> visited then (visited, sorted_out)
      else (let (visited1, sorted1) =
                  visit_deps subtasks (dependsOn t) (insert (st_id t) visited, sorted_out)
            in (visited1, sorted1 @ [t])))"
| "visit_deps subtasks [] st = st"
| "visit_deps subtasks (depId # rest) st =
     visit_deps subtasks rest
       (case find (\<lambda>d. st_id d = depId) subtasks of
          None \<Rightarrow> st
        | Some dep \<Rightarrow> visit subtasks dep st)"
  by pat_completeness auto

lemma visited_grows:
  "visit_visit_deps_dom (Inl (subtasks, t, st)) \<Longrightarrow> fst st \<subseteq> fst (visit subtasks t st)"
  "visit_visit_deps_dom (Inr (subtasks, deps, st)) \<Longrightarrow> fst st \<subseteq> fst (visit_deps subtasks deps st)"
proof (induction subtasks t st and subtasks deps st rule: visit_visit_deps.pinduct)
  case (1 subtasks t visited sorted_out)
  then show ?case
    by (auto simp add: visit.psimps split: prod.splits)
next
  case (2 subtasks st)
  then show ?case by (simp add: visit_deps.psimps)
next
  case (3 subtasks depId rest st)
  then show ?case
    by (auto simp add: visit_deps.psimps split: option.splits)
qed

lemma card_unvisited_mono:
  "finite A \<Longrightarrow> V \<subseteq> V' \<Longrightarrow> card (A - V') \<le> card (A - V)"
  by (rule card_mono) auto

text \<open>
  Every call either returns at once or marks a subtask id that was not yet visited, so
  the number of unvisited ids of the list bounds the depth of the recursion.
\<close>

termination visit
proof (relation "measures
     [\<lambda>x. case x of Inl (sts, t, (vis, srt)) \<Rightarrow> card (st_id ` set sts - vis)
                  | Inr (sts, ds, (vis, srt)) \<Rightarrow> card (st_id ` set sts - vis),
      \<lambda>x. case x of Inl (sts, t, st) \<Rightarrow> (if st_id t \<in> st_id ` set sts then 0 else 2)
                  | Inr (sts, ds, st) \<Rightarrow> 1,
      \<lambda>x. case x of Inl (sts, t, st) \<Rightarrow> 0
                  | Inr (sts, ds, st) \<Rightarrow> length ds]", goal_cases)
  case 1
  show ?case by simp
next
  case (2 subtasks t visited sorted_out)
  show ?case
  proof (cases "st_id t \<in> st_id ` set subtasks")
    case True
    with 2 have "st_id ` set subtasks - insert (st_id t) visited \<subset> st_id ` set subtasks - visited"
      by auto
    then have "card (st_id ` set subtasks - insert (st_id t) visited)
                 < card (st_id ` set subtasks - visited)"
      by (intro psubset_card_mono) auto
    then show ?thesis by simp
  next
    case False
    then have "st_id ` set subtasks - insert (st_id t) visited = st_id ` set subtasks - visited"
      by auto
    with False show ?thesis by simp
  qed
next
  case (3 subtasks depId rest st x2)
  then have "x2 \<in> set subtasks" by (auto simp add: find_Some_iff)
  then show ?case by (cases st) auto
next
  case (4 subtasks depId rest st)
  let ?st' = "case find (\<lambda>d. st_id d = depId) subtasks of
                None \<Rightarrow> st | Some dep \<Rightarrow> visit subtasks dep st"
  have "fst st \<subseteq> fst ?st'"
    using 4 by (auto split: option.splits dest: visited_grows(1))
  then have "card (st_id ` set subtasks - fst ?st') \<le> card (st_id ` set subtasks - fst st)"
    by (intro card_unvisited_mono) auto
  then show ?case by (cases st; cases ?st') (auto split: option.splits)
qed

declare visit.simps [simp del]

definition topologicalSort :: "SubTask list \<Rightarrow> SubTask list" where
  "topologicalSort subtasks = snd (fold (visit subtasks) subtasks ({}, []))"

subsection \<open>Running a task\<close>

text \<open>
  The decimal text of a number, as a template literal prints an integer below \<open>1e21\<close>
  (from there on JavaScript prints the exponent form, which is not modelled).
\<close>

fun show_nat :: "nat \<Rightarrow> string" where
  "show_nat n =
     (if n < 10 then [''0123456789'' ! n]
      else show_nat (n div 10) @ [''0123456789'' ! (n mod 10)])"

declare show_nat.simps [simp del]

definition show_int :: "int \<Rightarrow> string" where
  "show_int i = (if i < 0 then CHR ''-'' # show_nat (nat (- i)) else show_nat (nat i))"

text \<open>\<open>Set.add\<close>: a JavaScript set keeps its elements in insertion order.\<close>

definition set_add :: "int list \<Rightarrow> int \<Rightarrow> int list" where
  "set_add xs x = (if x \<in> set xs then xs else xs @ [x])"

definition budgetMultiplier :: "SubTask \<Rightarrow> real" where
  "budgetMultiplier subtask =
     (if complexity subtask = ''complex'' then 0.35
      else if complexity subtask = ''medium'' then 0.2 else 0.1)"

text \<open>
  The \<open>for\<close> loop of the complex path over the sorted subtasks. It returns the exception
  that left it, if any, the \<open>completed\<close> set, the \<open>agentResults\<close> array, and the state.
\<close>

fun execute_subtasks ::
  "'w Host \<Rightarrow> 'w Orchestrator \<Rightarrow> string \<Rightarrow> TaskConfig \<Rightarrow> string \<Rightarrow> 'w ToolRegistry
     \<Rightarrow> SubTask list \<Rightarrow> int list \<Rightarrow> AgentResult list \<Rightarrow> TaskState \<Rightarrow> 'w
     \<Rightarrow> Exn option \<times> int list \<times> AgentResult list \<times> TaskState \<times> 'w" where
  "execute_subtasks host orch tid cfg m tls [] completed results ts w =
     (None, completed, results, ts, w)"
| "execute_subtasks host orch tid cfg m tls (subtask # rest) completed results ts w =
     (if remaining (budget_mgr ts) \<le> 0 then (None, completed, results, ts, w)
      else if \<not> list_all (\<lambda>d. d \<in> set completed) (dependsOn subtask) then
        execute_subtasks host orch tid cfg m tls rest completed results ts w
      else
        (let (agentBudget, bm1) =
               allocate (budget_mgr ts) (''agent-'' @ show_int (st_id subtask))
                 (task_budget cfg * budgetMultiplier subtask);
             ts1 = ts\<lparr>budget_mgr := bm1\<rparr>
         in if agentBudget \<le> 0 then (None, completed, results, ts1, w)
            else
              (case runAgent host orch tid (agentType subtask) (description subtask) m tls
                      agentBudget ts1 w of
                 (Inl err, ts2, w2) \<Rightarrow> (Some err, completed, results, ts2, w2)
               | (Inr result, ts2, w2) \<Rightarrow>
                   execute_subtasks host orch tid cfg m tls rest
                     (set_add completed (st_id subtask)) (results @ [result]) ts2 w2)))"

text \<open>
  The body of the \<open>try\<close> block up to the aggregation: planning, then the simple or the
  complex path. An exception leaves with the results collected so far.
\<close>

definition runTask_try ::
  "'w Host \<Rightarrow> 'w Orchestrator \<Rightarrow> string \<Rightarrow> TaskConfig \<Rightarrow> string \<Rightarrow> 'w ToolRegistry
     \<Rightarrow> TaskState \<Rightarrow> 'w \<Rightarrow> Exn option \<times> AgentResult list \<times> TaskState \<times> 'w" where
  "runTask_try host orch tid cfg m tls ts w =
     (let (planBudget, bm1) = allocate (budget_mgr ts) ''planner'' (task_budget cfg * 0.1)
      in case planTask host orch (task cfg) m tls planBudget (ts\<lparr>budget_mgr := bm1\<rparr>) w of
           (Inl err, ts1, w1) \<Rightarrow> (Some err, [], ts1, w1)
         | (Inr subtasks, ts1, w1) \<Rightarrow>
             if length subtasks = 0 then
               (let (agentBudget, bm2) =
                      allocate (budget_mgr ts1) ''single-coder'' (remaining (budget_mgr ts1));
                    ts2 = ts1\<lparr>budget_mgr := bm2\<rparr>
                in case runAgent host orch tid ''coder'' (task cfg) m tls agentBudget ts2 w1 of
                     (Inl err, ts3, w3) \<Rightarrow> (Some err, [], ts3, w3)
                   | (Inr result, ts3, w3) \<Rightarrow> (None, [result], ts3, w3))
             else
               (case execute_subtasks host orch tid cfg m tls (topologicalSort subtasks)
                       [] [] ts1 w1 of
                  (exn, completed, results, ts3, w3) \<Rightarrow> (exn, results, ts3, w3)))"

definition status_line :: "AgentResult \<Rightarrow> string" where
  "status_line r =
     ''['' @ res_name r @ ''] '' @ status_text (status r) @ '': '' @ take 500 (res_output r)"

fun join :: "string \<Rightarrow> string list \<Rightarrow> string" where
  "join sep [] = []"
| "join sep [x] = x"
| "join sep (x # y # ys) = x @ sep @ join sep (y # ys)"

text \<open>
  \<open>runTask\<close>. The tool registry is obtained before the \<open>try\<close> block: if loading it throws,
  the call rejects (\<open>Inl\<close>). Everything after is inside the \<open>try\<close>, and the \<open>catch\<close> turns
  an exception into a result.
\<close>

definition runTask ::
  "'w Host \<Rightarrow> 'w Orchestrator \<Rightarrow> TaskConfig \<Rightarrow> 'w
     \<Rightarrow> (Exn + TaskResult) \<times> TaskState \<times> 'w Orchestrator \<times> 'w" where
  "runTask host orch cfg w =
     (let (tid, w1) = uuid host w;
          m = (case task_model cfg of None \<Rightarrow> defaultModel host | Some x \<Rightarrow> x);
          ts0 = emit \<lparr>budget_mgr = new_BudgetManager (task_budget cfg) None, events = []\<rparr>
                  (Started tid)
      in case getToolRegistry host orch w1 of
           (Inl err, orch1, w2) \<Rightarrow> (Inl err, ts0, orch1, w2)
         | (Inr tls, orch1, w2) \<Rightarrow>
             (case runTask_try host orch1 tid cfg m tls ts0 w2 of
                (None, results, ts1, w3) \<Rightarrow>
                  (let taskResult =
                         \<lparr>taskId = tid, result_task = task cfg,
                          result_output = join [CHR 0x0A, CHR 0x0A] (map status_line results),
                          result_totalCost = get_spent (budget_mgr ts1),
                          agentResults = results,
                          result_status =
                            (if remaining (budget_mgr ts1) \<le> 0 then TaskBudgetExhausted
                             else TaskCompleted)\<rparr>
                   in (Inr taskResult, emit ts1 (Task_completed taskResult), orch1, w3))
              | (Some err, results, ts1, w3) \<Rightarrow>
                  (let taskResult =
                         \<lparr>taskId = tid, result_task = task cfg,
                          result_output = ''Error: '' @ message err,
                          result_totalCost = get_spent (budget_mgr ts1),
                          agentResults = results,
                          result_status = TaskError\<rparr>
                   in (Inr taskResult, emit ts1 (Task_error err), orch1, w3))))"

section \<open>Notions used in the statements\<close>

text \<open>A ledger at 85 of 100 dollars spent, already above the 80 percent band.\<close>

definition bm85 :: BudgetManager where
  "bm85 = \<lparr>totalBudget = 100, totalSpent = 85, agentBudgets = Map.empty, reserve = 10\<rparr>"

text \<open>
  A backend stub that always answers with the same response and counts its calls: the
  world is the number of calls made so far.
\<close>

definition counting_stub :: "LLMResponse \<Rightarrow> nat LLMProvider" where
  "counting_stub resp msgs defs m sp calls = (Inr resp, Suc calls)"

text \<open>
  How a state of the sort grows: subtasks of the list are appended to \<open>sorted\<close>, their
  ids are new and pairwise distinct, and they are exactly what joins \<open>visited\<close>.
\<close>

definition extends :: "SubTask list \<Rightarrow> int set \<times> SubTask list \<Rightarrow> int set \<times> SubTask list \<Rightarrow> bool" where
  "extends subtasks st st' =
     (\<exists>added. snd st' = snd st @ added \<and> fst st' = fst st \<union> st_id ` set added
        \<and> set added \<subseteq> set subtasks \<and> distinct (map st_id added)
        \<and> st_id ` set added \<inter> fst st = {})"

text \<open>The \<open>completed\<close> set when the loop of the complex path is left, in insertion order.\<close>

definition completed_of ::
  "Exn option \<times> int list \<times> AgentResult list \<times> TaskState \<times> 'w \<Rightarrow> int list" where
  "completed_of r = fst (snd r)"

text \<open>
  What the event log records of the agents: the results announced by \<open>agent_done\<close>, one
  for every agent that has returned, and the task texts announced by \<open>agent_started\<close>,
  one for every agent that was started, both in the order of the events.
\<close>

fun done_result :: "TaskEvent \<Rightarrow> AgentResult list" where
  "done_result (Agent_done r) = [r]"
| "done_result ev = []"

definition done_results :: "TaskState \<Rightarrow> AgentResult list" where
  "done_results ts = concat (map done_result (events ts))"

fun started_task :: "TaskEvent \<Rightarrow> string list" where
  "started_task (Agent_started i n t) = [t]"
| "started_task ev = []"

definition started_tasks :: "TaskState \<Rightarrow> string list" where
  "started_tasks ts = concat (map started_task (events ts))"

text \<open>
  The specification's wording of the complex path for one subtask whose dependencies are
  complete: stop scheduling when nothing remains or the allocation is not positive,
  otherwise run the subtask's agent under its preset with the allocation.
\<close>

datatype Outcome = Ran AgentResult | Halted | Threw Exn

definition schedule_subtask ::
  "'w Host \<Rightarrow> 'w Orchestrator \<Rightarrow> string \<Rightarrow> TaskConfig \<Rightarrow> string \<Rightarrow> 'w ToolRegistry
     \<Rightarrow> SubTask \<Rightarrow> TaskState \<Rightarrow> 'w \<Rightarrow> Outcome \<times> TaskState \<times> 'w" where
  "schedule_subtask host orch tid cfg m tls subtask ts w =
     (if remaining (budget_mgr ts) \<le> 0 then (Halted, ts, w)
      else
        (let (agentBudget, bm1) =
               allocate (budget_mgr ts) (''agent-'' @ show_int (st_id subtask))
                 (task_budget cfg * budgetMultiplier subtask);
             ts1 = ts\<lparr>budget_mgr := bm1\<rparr>
         in if agentBudget \<le> 0 then (Halted, ts1, w)
            else
              (case runAgent host orch tid (agentType subtask) (description subtask) m tls
                      agentBudget ts1 w of
                 (Inl err, ts2, w2) \<Rightarrow> (Threw err, ts2, w2)
               | (Inr result, ts2, w2) \<Rightarrow> (Ran result, ts2, w2))))"

text \<open>
  Executing subtask \<open>t1\<close> strictly before subtask \<open>t2\<close>: the agent of \<open>t1\<close> is run
  first, and the agent of \<open>t2\<close> is run after it has returned, on the ledger, the event log
  and the world that the first run left; \<open>t2\<close> is not run when scheduling stops or an
  exception is raised at \<open>t1\<close>.
\<close>

definition first_then_second ::
  "'w Host \<Rightarrow> 'w Orchestrator \<Rightarrow> string \<Rightarrow> TaskConfig \<Rightarrow> string \<Rightarrow> 'w ToolRegistry
     \<Rightarrow> SubTask \<Rightarrow> SubTask \<Rightarrow> TaskState \<Rightarrow> 'w
     \<Rightarrow> Exn option \<times> int list \<times> AgentResult list \<times> TaskState \<times> 'w" where
  "first_then_second host orch tid cfg m tls t1 t2 ts w =
     (case schedule_subtask host orch tid cfg m tls t1 ts w of
        (Halted, ts1, w1) \<Rightarrow> (None, [], [], ts1, w1)
      | (Threw err, ts1, w1) \<Rightarrow> (Some err, [], [], ts1, w1)
      | (Ran r1, ts1, w1) \<Rightarrow>
          (case schedule_subtask host orch tid cfg m tls t2 ts1 w1 of
             (Halted, ts2, w2) \<Rightarrow> (None, [st_id t1], [r1], ts2, w2)
           | (Threw err, ts2, w2) \<Rightarrow> (Some err, [st_id t1], [r1], ts2, w2)
           | (Ran r2, ts2, w2) \<Rightarrow> (None, [st_id t1, st_id t2], [r1, r2], ts2, w2)))"

definition state_of ::
  "Exn option \<times> int list \<times> AgentResult list \<times> TaskState \<times> 'w \<Rightarrow> TaskState" where
  "state_of r = fst (snd (snd (snd r)))"

text \<open>
  The fallback output of the specification: the last non-empty assistant message, and
  otherwise the synthesized status string.
\<close>

definition last_spoken_or_status :: "('l, 'w) Agent \<Rightarrow> AgentStatus \<Rightarrow> string" where
  "last_spoken_or_status a st =
     (let spoken = filter (\<lambda>m. role m = Assistant \<and> content m \<noteq> []) (messages a)
      in if spoken \<noteq> [] then content (last spoken)
         else ''Agent '' @ agent_name a @ '' finished with status: '' @ status_text st)"

text \<open>The two subtasks \<open>{id: 1, dependsOn: []}\<close> and \<open>{id: 2, dependsOn: [1]}\<close>.\<close>

definition first_task :: "string \<Rightarrow> string \<Rightarrow> string \<Rightarrow> SubTask" where
  "first_task d a c = \<lparr>st_id = 1, description = d, agentType = a, complexity = c, dependsOn = []\<rparr>"

definition second_task :: "string \<Rightarrow> string \<Rightarrow> string \<Rightarrow> SubTask" where
  "second_task d a c = \<lparr>st_id = 2, description = d, agentType = a, complexity = c, dependsOn = [1]\<rparr>"

text \<open>Two subtasks that depend on each other, one of them also on an id that is absent.\<close>

definition cyc_a :: SubTask where
  "cyc_a = \<lparr>st_id = 1, description = ''a'', agentType = ''coder'', complexity = ''simple'',
            dependsOn = [2, 9]\<rparr>"

definition cyc_b :: SubTask where
  "cyc_b = \<lparr>st_id = 2, description = ''b'', agentType = ''coder'', complexity = ''simple'',
            dependsOn = [1]\<rparr>"

subsection \<open>A concrete host\<close>

text \<open>
  A host for running the scheduler on concrete inputs. The world is the counter of the id
  generator. The backend answers every call with the same text, no tool call and the same
  cost: the JSON text of the given plan, which the JSON parser decodes to that plan.
\<close>

definition demo_uuid :: "nat \<Rightarrow> string \<times> nat" where
  "demo_uuid n = (''3f2b8c1e-7a4d-4e9b-9c31-5d0e6f7a8b0'' @ show_nat n, Suc n)"

definition demo_response :: "string \<Rightarrow> real \<Rightarrow> LLMResponse" where
  "demo_response text c =
     \<lparr>resp_content = text, resp_toolCalls = [],
      usage = \<lparr>inputTokens = 1000, outputTokens = 200, cost = c\<rparr>, stopReason = End_turn\<rparr>"

definition demo_chat :: "string \<Rightarrow> real \<Rightarrow> nat LLMProvider" where
  "demo_chat text c msgs defs m sp w = (Inr (demo_response text c), w)"

text \<open>The JSON text of a plan, as a planner prints it.\<close>

definition json_string :: "string \<Rightarrow> string" where
  "json_string s = [CHR 0x22] @ s @ [CHR 0x22]"

definition json_of_subtask :: "SubTask \<Rightarrow> string" where
  "json_of_subtask t =
     ''{'' @ json_string ''id'' @ '':'' @ show_int (st_id t) @ '',''
     @ json_string ''description'' @ '':'' @ json_string (description t) @ '',''
     @ json_string ''agentType'' @ '':'' @ json_string (agentType t) @ '',''
     @ json_string ''complexity'' @ '':'' @ json_string (complexity t) @ '',''
     @ json_string ''dependsOn'' @ '':['' @ join '','' (map show_int (dependsOn t)) @ '']}''"

definition json_of_plan :: "SubTask list \<Rightarrow> string" where
  "json_of_plan plan = ''['' @ join '','' (map json_of_subtask plan) @ '']''"

definition demo_host :: "SubTask list \<Rightarrow> nat Host" where
  "demo_host plan =
     \<lparr>uuid = demo_uuid, createToolRegistry = (\<lambda>dir w. (Inr [], w)),
      JSON_parse = (\<lambda>s. if s = json_of_plan plan then Inr (ParsedArray plan)
                         else Inl (Error ''Unexpected token'')),
      abort_called = (\<lambda>w. False),
      defaultModel = ''claude-sonnet-4-5-20250929'', workspaceDir = ''/app/workspace''\<rparr>"

definition demo_orch :: "SubTask list \<Rightarrow> real \<Rightarrow> nat Orchestrator" where
  "demo_orch plan c =
     \<lparr>providers = [''anthropic'' \<mapsto> demo_chat (json_of_plan plan) c], toolRegistry = None\<rparr>"

definition demo_cfg :: TaskConfig where
  "demo_cfg = \<lparr>task = ''ship the feature'', task_budget = 5, task_model = None, repo = None\<rparr>"

text \<open>A plan whose second subtask names an agent type that is no preset.\<close>

definition bad_plan :: "SubTask list" where
  "bad_plan = [first_task ''build'' ''coder'' ''simple'', second_task ''check'' ''tester'' ''simple'']"

text \<open>A well-formed plan, listed with the dependent subtask first.\<close>

definition good_plan :: "SubTask list" where
  "good_plan = [second_task ''check'' ''reviewer'' ''simple'', first_task ''build'' ''coder'' ''simple'']"

text \<open>An agent whose backend answers with empty text and no tool call.\<close>

definition silent_cfg :: "nat AgentConfig" where
  "silent_cfg =
     \<lparr>cfg_id = Some ''a1'', cfg_name = ''Coder'', model = ''gpt-4o'', systemPrompt = ''You code.'',
      provider = demo_chat [] 0.1, tools = [], budget = 1, maxTurns = None\<rparr>"

text \<open>An agent with ceiling 0 whose backend would always request a tool call.\<close>

definition tool_response :: LLMResponse where
  "tool_response =
     \<lparr>resp_content = ''working'',
      resp_toolCalls = [\<lparr>tc_id = ''t1'', tc_name = ''bash'', tc_arguments = ''ls''\<rparr>],
      usage = \<lparr>inputTokens = 1000, outputTokens = 200, cost = 0.1\<rparr>, stopReason = Tool_use\<rparr>"

definition zero_cfg :: "nat AgentConfig" where
  "zero_cfg =
     \<lparr>cfg_id = Some ''a0'', cfg_name = ''Coder'', model = ''gpt-4o'', systemPrompt = ''You code.'',
      provider = counting_stub tool_response, tools = [], budget = 0, maxTurns = None\<rparr>"

text \<open>A host whose tool registry cannot be loaded.\<close>

definition broken_host :: "nat Host" where
  "broken_host =
     (demo_host [])\<lparr>createToolRegistry :=
        (\<lambda>dir w. (Inl (Error ''Cannot find module ./file.js''), w))\<rparr>"

text \<open>The sub-ledger stored under a key when \<open>runTask\<close> has returned.\<close>

definition ledger_after ::
  "(Exn + TaskResult) \<times> TaskState \<times> nat Orchestrator \<times> nat \<Rightarrow> string \<Rightarrow> AgentBudget option" where
  "ledger_after r k = agentBudgets (budget_mgr (fst (snd r))) k"

lemmas eval_defs =
  run_def finish_def new_Agent_def on_event_def allocate_def recordSpend_def release_def
  remaining_def percentUsed_def js_div_def demo_uuid_def demo_response_def demo_chat_def
  demo_host_def demo_orch_def demo_cfg_def AGENT_PRESETS_def orch_getProvider_def
  getProvider_def MODEL_PRICING_def parse_plan_def match_array_def emit_def show_int_def
  show_nat.simps set_add_def budgetMultiplier_def topologicalSort_def visit.simps
  getDefinitions_def Let_def runTask_try_def planTask_def runAgent_def run_loop.simps
  new_BudgetManager_def get_spent_def get_budget_def plan_prompt_def getToolRegistry_def
  runTask_def first_task_def second_task_def status_line_def bad_plan_def good_plan_def
  json_string_def json_of_subtask_def json_of_plan_def done_results_def started_tasks_def
  state_of_def completed_of_def broken_host_def

subsection \<open>Shorthand for one turn of the agent loop\<close>

text \<open>
  Input shorthand for the terms of one turn of \<open>run_loop\<close>: the agent after the usage of a
  response is added, the listener state after the cost and thinking events, the agent
  after the assistant message is appended, and the backend call itself.
\<close>

abbreviation (input) charged :: "('l, 'w) Agent \<Rightarrow> LLMResponse \<Rightarrow> bool \<Rightarrow> ('l, 'w) Agent" where
  "charged a b ab \<equiv>
     a\<lparr>totalCost := totalCost a + cost (usage b),
       totalInputTokens := totalInputTokens a + inputTokens (usage b),
       totalOutputTokens := totalOutputTokens a + outputTokens (usage b),
       turns := turns a + 1, aborted := aborted a \<or> ab\<rparr>"

abbreviation (input) heard :: "('l, 'w) Agent \<Rightarrow> LLMResponse \<Rightarrow> 'l \<Rightarrow> 'l" where
  "heard a b l \<equiv>
     (if resp_content b \<noteq> []
      then listeners a (Thinking (resp_content b))
             (listeners a (Cost_update (totalCost a + cost (usage b)) (budget (config a))) l)
      else listeners a (Cost_update (totalCost a + cost (usage b)) (budget (config a))) l)"

abbreviation (input) replied :: "('l, 'w) Agent \<Rightarrow> LLMResponse \<Rightarrow> bool \<Rightarrow> ToolCall list option \<Rightarrow> ('l, 'w) Agent" where
  "replied a b ab tcs \<equiv>
     (charged a b ab)\<lparr>messages := messages a @
        [\<lparr>role = Assistant, content = resp_content b, images = None,
          toolCalls = tcs, toolResults = None\<rparr>]\<rparr>"

abbreviation (input) call_backend :: "('l, 'w) Agent \<Rightarrow> 'w \<Rightarrow> (Exn + LLMResponse) \<times> 'w" where
  "call_backend a w \<equiv>
     provider (config a) (messages a) (getDefinitions (tools (config a)))
       (model (config a)) (systemPrompt (config a)) w"

section \<open>Properties of the BudgetManager\<close>

lemma recordSpend_totals:
  "totalSpent (snd (snd (recordSpend bm aid amount))) = totalSpent bm + amount"
  "totalBudget (snd (snd (recordSpend bm aid amount))) = totalBudget bm"
  by (simp_all add: recordSpend_def Let_def split: option.splits)


text \<open>
  C4, as the specification states it, fails: a call that takes usage from 85 to 86 percent
  crosses neither band, and a warning is emitted all the same.
\<close>

theorem warning_without_crossing:
  "warnings_of (recordSpend bm85 ''a'' 1) \<noteq> [] \<and> \<not> spec_warning_fires bm85 ''a'' 1"
  by (simp add: bm85_def recordSpend_def warnings_of_def Let_def percentUsed_def
      spec_warning_fires_def crosses_band_def js_div_def)

text \<open>
  C4, amended. A call of \<open>recordSpend\<close> emits a warning if and only if cumulative usage
  after the call is at least 80 percent of the total, and it emits at most one.
\<close>

theorem recordSpend_warns_at_or_above_80:
  "(warnings_of (recordSpend bm aid amount) \<noteq> [])
     = js_ge (percentUsed (snd (snd (recordSpend bm aid amount)))) 80
   \<and> length (warnings_of (recordSpend bm aid amount)) \<le> 1"
proof -
  have a: "js_ge p 90 \<Longrightarrow> js_ge p 80" for p by (cases p) auto
  show ?thesis
    using a
    by (auto simp add: recordSpend_def warnings_of_def Let_def percentUsed_def
        split: option.splits)
qed

text \<open>
  C9. What \<open>allocate\<close> returns does not depend on the live sub-ledgers, and a \<open>release\<close>
  before it changes nothing; two allocations of 60 from a fresh budget of 100 are both
  granted in full, so the live allocations (120) exceed \<open>total - spent - reserve\<close> (90).
\<close>

theorem allocate_ignores_live_ledgers:
  "fst (allocate (bm\<lparr>agentBudgets := ledgers\<rparr>) aid r) = fst (allocate bm aid r)
   \<and> fst (allocate (snd (release bm other)) aid r) = fst (allocate bm aid r)
   \<and> (let bm0 = new_BudgetManager 100 None;
           bm1 = snd (allocate bm0 ''a'' 60);
           bm2 = snd (allocate bm1 ''b'' 60)
       in live_allocated bm2 [''a'', ''b''] = 120
          \<and> totalBudget bm2 - totalSpent bm2 - reserve bm2 = 90)"
  by (simp add: allocate_def release_def Let_def new_BudgetManager_def live_allocated_def
      split: option.splits)

section \<open>Properties of the agent loop\<close>

lemma finish_None_nonempty: "res_output (fst (finish a st None l)) \<noteq> []"
proof -
  let ?sp = "filter (\<lambda>m. role m = Assistant \<and> content m \<noteq> []) (messages a)"
  have "content (last ?sp) \<noteq> []" if ne: "?sp \<noteq> []"
  proof -
    from ne have "last ?sp \<in> set ?sp" by (rule last_in_set)
    then show ?thesis by simp
  qed
  then show ?thesis by (auto simp add: finish_def Let_def)
qed

lemma finish_Some: "res_output (fst (finish a st (Some t) l)) = t"
  by (simp add: finish_def Let_def)

lemma finish_status:
  "status (fst (finish a st out l)) = st"
  "res_turns (fst (finish a st out l)) = turns a"
  by (simp_all add: finish_def Let_def)

lemma finish_listeners: "snd (finish a st out l) = listeners a (Done (fst (finish a st out l))) l"
  by (simp add: finish_def Let_def)

lemma run_loop_halt:
  assumes "\<not> (turns a < maxT \<and> \<not> aborted a)"
  shows "run_loop ac maxT a l w =
           (fst (finish a (if aborted a then ErrorStatus else MaxTurns) None l), a,
            snd (finish a (if aborted a then ErrorStatus else MaxTurns) None l), w)"
  apply (subst run_loop.simps)
  apply (subst if_not_P[OF assms])
  apply (simp split: prod.splits)
  done

lemma run_loop_exhausted:
  assumes "turns a < maxT \<and> \<not> aborted a" and "budget (config a) \<le> totalCost a"
  shows "run_loop ac maxT a l w =
           (fst (finish a BudgetExhausted None l), a, snd (finish a BudgetExhausted None l), w)"
  apply (subst run_loop.simps)
  apply (subst if_P[OF assms(1)])
  apply (simp add: assms(2) split: prod.splits)
  done

lemma run_loop_rejected:
  assumes "turns a < maxT \<and> \<not> aborted a" and "\<not> budget (config a) \<le> totalCost a"
      and "call_backend a w = (Inl err, w1)"
  shows "run_loop ac maxT a l w =
           (fst (finish a ErrorStatus (Some (''Error: '' @ message err)) (listeners a (Error_event err) l)),
            a,
            snd (finish a ErrorStatus (Some (''Error: '' @ message err)) (listeners a (Error_event err) l)),
            w1)"
  apply (subst run_loop.simps)
  apply (subst if_P[OF assms(1)])
  apply (simp add: assms(2,3) split: prod.splits)
  done

lemma run_loop_completed:
  assumes "turns a < maxT \<and> \<not> aborted a" and "\<not> budget (config a) \<le> totalCost a"
      and "call_backend a w = (Inr b, w1)" and "resp_toolCalls b = []"
  shows "run_loop ac maxT a l w =
           (fst (finish (replied a b (ac w1) None) Completed (Some (resp_content b)) (heard a b l)),
            replied a b (ac w1) None,
            snd (finish (replied a b (ac w1) None) Completed (Some (resp_content b)) (heard a b l)),
            w1)"
  apply (subst run_loop.simps)
  apply (subst if_P[OF assms(1)])
  apply (simp add: assms(2,3,4) Let_def split: prod.splits)
  done

lemma run_loop_continue:
  assumes "turns a < maxT \<and> \<not> aborted a" and "\<not> budget (config a) \<le> totalCost a"
      and "call_backend a w = (Inr b, w1)" and "resp_toolCalls b \<noteq> []"
      and "execute_toolCalls (replied a b (ac w1) (Some (resp_toolCalls b))) ac (resp_toolCalls b) []
             (aborted a \<or> ac w1, heard a b l, w1) = (results, ab, l3, w2)"
  shows "run_loop ac maxT a l w =
           run_loop ac maxT
             ((replied a b (ac w1) (Some (resp_toolCalls b)))
                \<lparr>messages := messages a @
                   [\<lparr>role = Assistant, content = resp_content b, images = None,
                     toolCalls = Some (resp_toolCalls b), toolResults = None\<rparr>,
                    \<lparr>role = Tool, content = [], images = None, toolCalls = None,
                     toolResults = Some results\<rparr>],
                 aborted := ab\<rparr>)
             l3 w2"
  using assms(5)
  apply (subst run_loop.simps)
  apply (subst if_P[OF assms(1)])
  apply (simp add: assms(2,3,4) Let_def split: if_splits)
  done

text \<open>
  A rule for properties of the whole loop: it is enough that the property holds where the
  loop is left, and that it is passed on through a turn with tool calls.
\<close>

lemma run_loop_rule:
  assumes halt: "\<And>a l w. \<not> (turns a < maxT \<and> \<not> aborted a) \<Longrightarrow> J a l \<Longrightarrow>
            P (fst (finish a (if aborted a then ErrorStatus else MaxTurns) None l)) a
              (snd (finish a (if aborted a then ErrorStatus else MaxTurns) None l)) w"
      and exhausted: "\<And>a l w. turns a < maxT \<and> \<not> aborted a \<Longrightarrow> J a l \<Longrightarrow>
            P (fst (finish a BudgetExhausted None l)) a (snd (finish a BudgetExhausted None l)) w"
      and rejected: "\<And>a l w err w1. call_backend a w = (Inl err, w1) \<Longrightarrow> J a l \<Longrightarrow>
            P (fst (finish a ErrorStatus (Some (''Error: '' @ message err)) (listeners a (Error_event err) l))) a
              (snd (finish a ErrorStatus (Some (''Error: '' @ message err)) (listeners a (Error_event err) l))) w1"
      and completed: "\<And>a l w b w1. call_backend a w = (Inr b, w1) \<Longrightarrow> resp_toolCalls b = [] \<Longrightarrow> J a l \<Longrightarrow>
            P (fst (finish (replied a b (ac w1) None) Completed (Some (resp_content b)) (heard a b l)))
              (replied a b (ac w1) None)
              (snd (finish (replied a b (ac w1) None) Completed (Some (resp_content b)) (heard a b l))) w1"
      and continue: "\<And>a l w b w1 results ab l3 w2. call_backend a w = (Inr b, w1) \<Longrightarrow>
            execute_toolCalls (replied a b (ac w1) (Some (resp_toolCalls b))) ac (resp_toolCalls b) []
               (aborted a \<or> ac w1, heard a b l, w1) = (results, ab, l3, w2) \<Longrightarrow> J a l \<Longrightarrow>
            J ((replied a b (ac w1) (Some (resp_toolCalls b)))
                \<lparr>messages := messages a @
                   [\<lparr>role = Assistant, content = resp_content b, images = None,
                     toolCalls = Some (resp_toolCalls b), toolResults = None\<rparr>,
                    \<lparr>role = Tool, content = [], images = None, toolCalls = None,
                     toolResults = Some results\<rparr>],
                 aborted := ab\<rparr>) l3"
  shows "J a l \<Longrightarrow> run_loop ac maxT a l w = (r, a', l', w') \<Longrightarrow> P r a' l' w'"
proof (induction "nat (maxT - turns a)" arbitrary: a l w rule: less_induct)
  case less
  note J = less.prems(1) and run = less.prems(2)
  show ?case
  proof (cases "turns a < maxT \<and> \<not> aborted a")
    case False
    from run_loop_halt[OF False] run halt[OF False J] show ?thesis by auto
  next
    case go: True
    show ?thesis
    proof (cases "budget (config a) \<le> totalCost a")
      case True
      from run_loop_exhausted[OF go True] run exhausted[OF go J] show ?thesis by auto
    next
      case nb: False
      obtain res w1 where ch: "call_backend a w = (res, w1)"
        by (cases "call_backend a w") auto
      show ?thesis
      proof (cases res)
        case (Inl err)
        from run_loop_rejected[OF go nb ch[unfolded Inl]] run rejected[OF ch[unfolded Inl] J]
        show ?thesis by auto
      next
        case (Inr b)
        note chb = ch[unfolded Inr]
        show ?thesis
        proof (cases "resp_toolCalls b = []")
          case True
          from run_loop_completed[OF go nb chb True] run completed[OF chb True J]
          show ?thesis by auto
        next
          case ne: False
          obtain results ab l3 w2 where
            ex: "execute_toolCalls (replied a b (ac w1) (Some (resp_toolCalls b))) ac (resp_toolCalls b) []
               (aborted a \<or> ac w1, heard a b l, w1) = (results, ab, l3, w2)"
            by (cases "execute_toolCalls (replied a b (ac w1) (Some (resp_toolCalls b))) ac (resp_toolCalls b) []
               (aborted a \<or> ac w1, heard a b l, w1)") auto
          let ?a3 = "(replied a b (ac w1) (Some (resp_toolCalls b)))
                \<lparr>messages := messages a @
                   [\<lparr>role = Assistant, content = resp_content b, images = None,
                     toolCalls = Some (resp_toolCalls b), toolResults = None\<rparr>,
                    \<lparr>role = Tool, content = [], images = None, toolCalls = None,
                     toolResults = Some results\<rparr>],
                 aborted := ab\<rparr>"
          have J3: "J ?a3 l3" by (rule continue[OF chb ex J])
          have run3: "run_loop ac maxT ?a3 l3 w2 = (r, a', l', w')"
            using run_loop_continue[OF go nb chb ne ex] run by simp
          have "nat (maxT - turns ?a3) < nat (maxT - turns a)" using go by simp
          then show ?thesis using J3 run3 by (rule less.hyps)
        qed
      qed
    qed
  qed
qed


lemma finish_None_output:
  "res_output (fst (finish a st None l)) = last_spoken_or_status a st"
  by (simp add: finish_def last_spoken_or_status_def Let_def)

lemma last_spoken_or_status_nonempty: "last_spoken_or_status a st \<noteq> []"
proof -
  let ?sp = "filter (\<lambda>m. role m = Assistant \<and> content m \<noteq> []) (messages a)"
  have "content (last ?sp) \<noteq> []" if ne: "?sp \<noteq> []"
  proof -
    from ne have "last ?sp \<in> set ?sp" by (rule last_in_set)
    then show ?thesis by simp
  qed
  then show ?thesis by (auto simp add: last_spoken_or_status_def Let_def)
qed

text \<open>
  The output in every terminal state of the loop. On completion it is the text of the
  final response, which is the last assistant message. In every other state it is
  non-empty: the fallback of the specification, or \<open>Error: \<close> and the exception's message.
\<close>

lemma run_loop_output:
  assumes "run_loop ac maxT a l w = (r, a', l', w')"
  shows "(status r = Completed \<and> messages a' \<noteq> [] \<and> role (last (messages a')) = Assistant
            \<and> res_output r = content (last (messages a')))
       \<or> (status r \<noteq> Completed \<and> res_output r \<noteq> []
            \<and> (res_output r = last_spoken_or_status a' (status r)
                 \<or> status r = ErrorStatus \<and> (\<exists>err. res_output r = ''Error: '' @ message err)))"
  by (rule run_loop_rule[where J = "\<lambda>a l. True" and
        P = "\<lambda>r a' l' w'.
          (status r = Completed \<and> messages a' \<noteq> [] \<and> role (last (messages a')) = Assistant
            \<and> res_output r = content (last (messages a')))
       \<or> (status r \<noteq> Completed \<and> res_output r \<noteq> []
            \<and> (res_output r = last_spoken_or_status a' (status r)
                 \<or> status r = ErrorStatus \<and> (\<exists>err. res_output r = ''Error: '' @ message err)))",
        OF _ _ _ _ _ _ assms])
     (auto simp add: finish_status finish_Some finish_None_output last_spoken_or_status_nonempty)

lemma run_output:
  assumes "run ac a t imgs l w = (r, a', l', w')"
  shows "(status r = Completed \<and> messages a' \<noteq> [] \<and> role (last (messages a')) = Assistant
            \<and> res_output r = content (last (messages a')))
       \<or> (status r \<noteq> Completed \<and> res_output r \<noteq> []
            \<and> (res_output r = last_spoken_or_status a' (status r)
                 \<or> status r = ErrorStatus \<and> (\<exists>err. res_output r = ''Error: '' @ message err)))"
  using assms run_loop_output by (simp add: run_def Let_def)

lemma execute_toolCalls_invariant:
  assumes "\<And>ev l. I l \<Longrightarrow> I (listeners a ev l)"
  shows "I l \<Longrightarrow> execute_toolCalls a ac tcs acc (ab, l, w) = (results, ab', l', w') \<Longrightarrow> I l'"
proof (induction tcs arbitrary: acc ab l w)
  case Nil
  then show ?case by simp
next
  case (Cons tc tcs)
  obtain result w1 where
    e: "registry_execute (tools (config a)) (tc_name tc) (tc_arguments tc) w = (result, w1)"
    by (cases "registry_execute (tools (config a)) (tc_name tc) (tc_arguments tc) w") auto
  let ?l2 = "listeners a (Tool_result (tc_name tc) result)
               (listeners a (Tool_call (tc_name tc) (tc_arguments tc)) l)"
  have "I ?l2" using Cons.prems(1) assms by simp
  moreover have "execute_toolCalls a ac tcs (acc @ [\<lparr>toolCallId = tc_id tc, tr_content = result\<rparr>])
      (ab \<or> ac w1, ?l2, w1) = (results, ab', l', w')"
    using Cons.prems(2) e by (simp add: Let_def)
  ultimately show ?case by (rule Cons.IH)
qed

text \<open>What every listener of the agent preserves still holds when the loop is left.\<close>

lemma run_loop_invariant:
  assumes inv: "\<And>ev l. I l \<Longrightarrow> I (listeners a ev l)"
      and start: "I l"
      and run: "run_loop ac maxT a l w = (r, a', l', w')"
  shows "I l'"
proof (rule run_loop_rule[where J = "\<lambda>a0 l0. listeners a0 = listeners a \<and> I l0" and
        P = "\<lambda>r a' l' w'. I l'", OF _ _ _ _ _ _ run])
  show "listeners a = listeners a \<and> I l" using start by simp
next
  fix a0 b w1 results ab l3 w2 and l0 :: 'a and w0 :: 'b
  assume ex: "execute_toolCalls (replied a0 b (ac w1) (Some (resp_toolCalls b))) ac
                 (resp_toolCalls b) [] (aborted a0 \<or> ac w1, heard a0 b l0, w1)
               = (results, ab, l3, w2)"
     and J: "listeners a0 = listeners a \<and> I l0"
  have hl: "I (heard a0 b l0)" using J inv by simp
  have inv2: "\<And>ev l. I l \<Longrightarrow> I (listeners (replied a0 b (ac w1) (Some (resp_toolCalls b))) ev l)"
    using J inv by simp
  have "I l3" by (rule execute_toolCalls_invariant[of I, OF inv2 hl ex])
  then show "listeners ((replied a0 b (ac w1) (Some (resp_toolCalls b)))
                \<lparr>messages := messages a0 @
                   [\<lparr>role = Assistant, content = resp_content b, images = None,
                     toolCalls = Some (resp_toolCalls b), toolResults = None\<rparr>,
                    \<lparr>role = Tool, content = [], images = None, toolCalls = None,
                     toolResults = Some results\<rparr>],
                 aborted := ab\<rparr>) = listeners a \<and> I l3"
    using J by simp
qed (simp_all add: finish_listeners inv)

lemma run_invariant:
  assumes "\<And>ev l. I l \<Longrightarrow> I (listeners a ev l)" and "I l"
      and "run ac a t imgs l w = (r, a', l', w')"
  shows "I l'"
proof -
  let ?a = "a\<lparr>messages := messages a @ [\<lparr>role = User, content = t,
             images = (case imgs of Some (i # is) \<Rightarrow> Some (i # is) | _ \<Rightarrow> None),
             toolCalls = None, toolResults = None\<rparr>]\<rparr>"
  have i: "\<And>ev l. I l \<Longrightarrow> I (listeners ?a ev l)" using assms(1) by simp
  have r: "run_loop ac (case maxTurns (config a) of None \<Rightarrow> 100 | Some n \<Rightarrow> n) ?a l w
             = (r, a', l', w')"
    using assms(3) by (simp add: run_def Let_def)
  show ?thesis by (rule run_loop_invariant[of I, OF i assms(2) r])
qed

text \<open>
  C3. With a backend stub that always requests a tool call and a budget ceiling of 0, a
  fresh agent whose turn limit is the default or positive ends \<open>run\<close> with status
  \<open>budget_exhausted\<close>, zero turns and zero calls made to the backend.
\<close>

theorem run_zero_budget_no_backend_call:
  assumes "provider cfg = counting_stub resp" and "resp_toolCalls resp \<noteq> []" and "budget cfg = 0"
      and "maxTurns cfg = None \<or> (\<exists>n. maxTurns cfg = Some n \<and> 0 < n)"
      and "run ac (fst (new_Agent gen cfg w)) t imgs l 0 = (r, a', l', calls)"
  shows "status r = BudgetExhausted \<and> res_turns r = 0 \<and> calls = 0"
proof -
  obtain i w1 where iw: "(case cfg_id cfg of Some i \<Rightarrow> (i, w) | None \<Rightarrow> gen w) = (i, w1)"
    by (cases "(case cfg_id cfg of Some i \<Rightarrow> (i, w) | None \<Rightarrow> gen w)") auto
  define a0 where "a0 = (fst (new_Agent gen cfg w) :: ('a, nat) Agent)"
  have f: "turns a0 = 0" "totalCost a0 = 0" "\<not> aborted a0" "config a0 = cfg"
    by (simp_all add: a0_def new_Agent_def iw)
  define maxT where "maxT = (case maxTurns cfg of None \<Rightarrow> 100 | Some n \<Rightarrow> n)"
  have pos: "0 < maxT" using assms(4) by (auto simp add: maxT_def)
  define a1 where "a1 = a0\<lparr>messages := messages a0 @ [\<lparr>role = User, content = t,
             images = (case imgs of Some (i # is) \<Rightarrow> Some (i # is) | _ \<Rightarrow> None),
             toolCalls = None, toolResults = None\<rparr>]\<rparr>"
  have r: "run ac a0 t imgs l 0 = run_loop ac maxT a1 l 0"
    by (simp add: run_def f maxT_def a1_def Let_def)
  have g: "turns a1 < maxT \<and> \<not> aborted a1" "budget (config a1) \<le> totalCost a1" "turns a1 = 0"
    using f pos assms(3) by (simp_all add: a1_def)
  from run_loop_exhausted[OF g(1,2)] r assms(5)
  have "r = fst (finish a1 BudgetExhausted None l)" "calls = 0"
    by (simp_all add: a0_def)
  then show ?thesis by (simp add: finish_status g)
qed

theorem run_zero_budget_no_backend_call_witness:
  "status (fst (run (\<lambda>w. False) (fst (new_Agent demo_uuid zero_cfg 7)) ''do it'' None () 0))
     = BudgetExhausted
   \<and> res_turns (fst (run (\<lambda>w. False) (fst (new_Agent demo_uuid zero_cfg 7)) ''do it'' None () 0)) = 0
   \<and> snd (snd (snd (run (\<lambda>w. False) (fst (new_Agent demo_uuid zero_cfg 7)) ''do it'' None () 0))) = 0"
proof -
  obtain r a' l' calls where
    e: "run (\<lambda>w. False) (fst (new_Agent demo_uuid zero_cfg 7)) ''do it'' None () 0 = (r, a', l', calls)"
    by (cases "run (\<lambda>w. False) (fst (new_Agent demo_uuid zero_cfg 7) :: (unit, nat) Agent)
                 ''do it'' None () 0") auto
  have p1: "provider zero_cfg = counting_stub tool_response" by (simp add: zero_cfg_def)
  have p2: "resp_toolCalls tool_response \<noteq> []" by (simp add: tool_response_def)
  have p3: "budget zero_cfg = 0" by (simp add: zero_cfg_def)
  have p4: "maxTurns zero_cfg = None \<or> (\<exists>n. maxTurns zero_cfg = Some n \<and> 0 < n)"
    by (simp add: zero_cfg_def)
  from run_zero_budget_no_backend_call[OF p1 p2 p3 p4 e] e show ?thesis by simp
qed

text \<open>
  C8 at a failing input. The specification states that the output of every terminal
  state is a non-empty string. A backend whose final response has empty text and no tool call ends
  the run \<open>completed\<close> with the empty string as output: \<open>finish\<close> takes an explicit output
  as it is, also when it is empty. In every other terminal state the output is non-empty
  (\<open>run_output\<close>).
\<close>

theorem completed_with_empty_output:
  "status (fst (run (\<lambda>w. False) (fst (new_Agent demo_uuid silent_cfg 0)) ''say nothing'' None () 0))
     = Completed
   \<and> res_output (fst (run (\<lambda>w. False) (fst (new_Agent demo_uuid silent_cfg 0)) ''say nothing'' None () 0))
     = []"
  by (simp add: eval_defs silent_cfg_def)

section \<open>Properties of the topological sort\<close>

lemma extends_refl: "extends subtasks st st"
  unfolding extends_def by (rule exI[of _ "[]"]) simp

lemma extends_trans:
  assumes "extends subtasks st st1" and "extends subtasks st1 st2"
  shows "extends subtasks st st2"
proof -
  from assms(1) obtain a1 where a1: "snd st1 = snd st @ a1" "fst st1 = fst st \<union> st_id ` set a1"
    "set a1 \<subseteq> set subtasks" "distinct (map st_id a1)" "st_id ` set a1 \<inter> fst st = {}"
    unfolding extends_def by blast
  from assms(2) obtain a2 where a2: "snd st2 = snd st1 @ a2" "fst st2 = fst st1 \<union> st_id ` set a2"
    "set a2 \<subseteq> set subtasks" "distinct (map st_id a2)" "st_id ` set a2 \<inter> fst st1 = {}"
    unfolding extends_def by blast
  show ?thesis
    unfolding extends_def
  proof (intro exI[of _ "a1 @ a2"] conjI)
    show "snd st2 = snd st @ a1 @ a2" using a1 a2 by simp
    show "fst st2 = fst st \<union> st_id ` set (a1 @ a2)" using a1 a2 by auto
    show "set (a1 @ a2) \<subseteq> set subtasks" using a1 a2 by simp
    show "distinct (map st_id (a1 @ a2))" using a1 a2 by auto
    show "st_id ` set (a1 @ a2) \<inter> fst st = {}" using a1 a2 by auto
  qed
qed

text \<open>
  A visit of a subtask of the list appends subtasks with new, distinct ids and leaves the
  subtask's own id visited; the loop over the dependencies appends likewise.
\<close>

lemma visit_extends:
  "t \<in> set subtasks \<Longrightarrow>
     extends subtasks st (visit subtasks t st) \<and> st_id t \<in> fst (visit subtasks t st)"
  "extends subtasks st (visit_deps subtasks deps st)"
proof (induction subtasks t st and subtasks deps st rule: visit_visit_deps.induct)
  case (1 subtasks t visited sorted_out)
  show ?case
  proof (cases "st_id t \<in> visited")
    case True
    then show ?thesis by (simp add: visit.simps extends_refl)
  next
    case False
    obtain v1 s1 where
      r: "visit_deps subtasks (dependsOn t) (insert (st_id t) visited, sorted_out) = (v1, s1)"
      by (cases "visit_deps subtasks (dependsOn t) (insert (st_id t) visited, sorted_out)") auto
    from "1.IH"[OF False] r
    have "extends subtasks (insert (st_id t) visited, sorted_out) (v1, s1)" by simp
    then obtain added where
      a: "s1 = sorted_out @ added" "v1 = insert (st_id t) visited \<union> st_id ` set added"
         "set added \<subseteq> set subtasks" "distinct (map st_id added)"
         "st_id ` set added \<inter> insert (st_id t) visited = {}"
      unfolding extends_def by auto
    have v: "visit subtasks t (visited, sorted_out) = (v1, s1 @ [t])"
      using False r by (simp add: visit.simps)
    have "extends subtasks (visited, sorted_out) (v1, s1 @ [t])"
      unfolding extends_def
    proof (intro exI[of _ "added @ [t]"] conjI)
      show "snd (v1, s1 @ [t]) = snd (visited, sorted_out) @ added @ [t]" using a by simp
      show "fst (v1, s1 @ [t]) = fst (visited, sorted_out) \<union> st_id ` set (added @ [t])"
        using a by auto
      show "set (added @ [t]) \<subseteq> set subtasks" using a "1.prems" by simp
      show "distinct (map st_id (added @ [t]))" using a by auto
      show "st_id ` set (added @ [t]) \<inter> fst (visited, sorted_out) = {}" using a False by auto
    qed
    moreover have "st_id t \<in> v1" using a by simp
    ultimately show ?thesis using v by simp
  qed
next
  case (2 subtasks st)
  show ?case by (simp add: extends_refl)
next
  case (3 subtasks depId rest st)
  let ?st' = "case find (\<lambda>d. st_id d = depId) subtasks of
                None \<Rightarrow> st | Some dep \<Rightarrow> visit subtasks dep st"
  have "extends subtasks st ?st'"
  proof (cases "find (\<lambda>d. st_id d = depId) subtasks")
    case None
    then show ?thesis by (simp add: extends_refl)
  next
    case (Some dep)
    then have "dep \<in> set subtasks" by (auto simp add: find_Some_iff)
    with "3.IH"(1)[OF Some] Some show ?thesis by simp
  qed
  moreover have "extends subtasks ?st' (visit_deps subtasks rest ?st')" by (rule "3.IH"(2))
  ultimately show ?case by (simp add: extends_trans)
qed

lemma fold_visit_extends:
  "set ts \<subseteq> set subtasks \<Longrightarrow>
     extends subtasks st (fold (visit subtasks) ts st)
     \<and> st_id ` set ts \<subseteq> fst (fold (visit subtasks) ts st)"
proof (induction ts arbitrary: st)
  case Nil
  show ?case by (simp add: extends_refl)
next
  case (Cons t ts)
  then have t: "t \<in> set subtasks" and ts: "set ts \<subseteq> set subtasks" by auto
  let ?st1 = "visit subtasks t st"
  have e1: "extends subtasks st ?st1" and m1: "st_id t \<in> fst ?st1"
    using visit_extends(1)[OF t] by auto
  have e2: "extends subtasks ?st1 (fold (visit subtasks) ts ?st1)"
    and m2: "st_id ` set ts \<subseteq> fst (fold (visit subtasks) ts ?st1)"
    using Cons.IH[OF ts] by auto
  have "fst ?st1 \<subseteq> fst (fold (visit subtasks) ts ?st1)"
    using e2 unfolding extends_def by auto
  with m1 m2 e1 e2 show ?case by (auto intro: extends_trans)
qed

text \<open>
  C10. \<open>topologicalSort\<close> is a total function (its recursion was shown to terminate on
  every list, cyclic or with absent dependency ids), and on a list of subtasks with
  pairwise distinct ids it returns a permutation of the list.
\<close>

theorem topologicalSort_permutation:
  assumes "distinct (map st_id subtasks)"
  shows "mset (topologicalSort subtasks) = mset subtasks"
proof -
  let ?r = "fold (visit subtasks) subtasks ({}, [])"
  have e: "extends subtasks ({}, []) ?r" and c: "st_id ` set subtasks \<subseteq> fst ?r"
    using fold_visit_extends[of subtasks subtasks "({}, [])"] by auto
  from e have s: "fst ?r = st_id ` set (snd ?r)" "set (snd ?r) \<subseteq> set subtasks"
    "distinct (map st_id (snd ?r))"
    unfolding extends_def by auto
  have inj: "inj_on st_id (set subtasks)" using assms by (simp add: distinct_map)
  have "set subtasks \<subseteq> set (snd ?r)"
  proof
    fix t assume t: "t \<in> set subtasks"
    then have "st_id t \<in> st_id ` set (snd ?r)" using c s(1) by auto
    then obtain u where u: "u \<in> set (snd ?r)" "st_id u = st_id t" by auto
    with s(2) t inj have "u = t" by (auto dest: inj_onD)
    with u show "t \<in> set (snd ?r)" by simp
  qed
  with s(2) have "set (snd ?r) = set subtasks" by auto
  moreover have "distinct (snd ?r)" using s(3) by (simp add: distinct_map)
  moreover have "distinct subtasks" using assms by (simp add: distinct_map)
  ultimately have "mset (snd ?r) = mset subtasks"
    by (simp add: set_eq_iff_mset_eq_distinct)
  then show ?thesis by (simp add: topologicalSort_def)
qed

theorem topologicalSort_permutation_witness:
  "distinct (map st_id [cyc_a, cyc_b])
   \<and> topologicalSort [cyc_a, cyc_b] = [cyc_b, cyc_a]
   \<and> mset (topologicalSort [cyc_a, cyc_b]) = mset [cyc_a, cyc_b]"
proof -
  have d: "distinct (map st_id [cyc_a, cyc_b])" by (simp add: cyc_a_def cyc_b_def)
  have v: "topologicalSort [cyc_a, cyc_b] = [cyc_b, cyc_a]"
    by (simp add: topologicalSort_def visit.simps cyc_a_def cyc_b_def)
  from topologicalSort_permutation[OF d] d v show ?thesis by simp
qed

section \<open>Properties of the orchestrator\<close>

text \<open>What a call of \<open>runAgent\<close> adds to the event log.\<close>

lemma emit_logs:
  "done_results (emit ts ev) = done_results ts @ done_result ev"
  "started_tasks (emit ts ev) = started_tasks ts @ started_task ev"
  by (simp_all add: emit_def done_results_def started_tasks_def)

lemma budget_update_logs:
  "done_results (ts\<lparr>budget_mgr := bm\<rparr>) = done_results ts"
  "started_tasks (ts\<lparr>budget_mgr := bm\<rparr>) = started_tasks ts"
  by (simp_all add: done_results_def started_tasks_def)

lemma runAgent_listener_logs:
  "done_results (runAgent_listener aid ev ts) = done_results ts"
  "started_tasks (runAgent_listener aid ev ts) = started_tasks ts"
  by (cases ev; simp add: emit_logs budget_update_logs Let_def)+

lemma planner_listener_logs: "events (planner_listener ev ts) = events ts"
  by (cases ev) simp_all

lemma runAgent_logs:
  assumes "runAgent host orch tid preset t m tls bdg ts w = (res, ts', w')"
  shows "done_results ts' = done_results ts @ (case res of Inl e \<Rightarrow> [] | Inr r \<Rightarrow> [r])
       \<and> started_tasks ts' = started_tasks ts @ (case res of Inl e \<Rightarrow> [] | Inr r \<Rightarrow> [t])"
proof (cases "orch_getProvider orch m")
  case (Inl err)
  with assms show ?thesis by (auto simp add: runAgent_def)
next
  case (Inr prov)
  show ?thesis
  proof (cases "AGENT_PRESETS preset")
    case None
    with assms Inr show ?thesis by (auto simp add: runAgent_def)
  next
    case (Some pc)
    let ?cfg = "\<lparr>cfg_id = None, cfg_name = preset_name pc, model = m,
                 systemPrompt = preset_systemPrompt pc,
                 provider = prov, tools = tls, budget = bdg, maxTurns = None\<rparr>"
    obtain agent0 w1 where
      na: "(new_Agent (uuid host) ?cfg w :: (TaskState, 'a) Agent \<times> 'a) = (agent0, w1)"
      by (cases "new_Agent (uuid host) ?cfg w :: (TaskState, 'a) Agent \<times> 'a") auto
    let ?agent = "on_event agent0 (runAgent_listener (agent_id agent0))"
    let ?ts1 = "emit ts (Agent_started (agent_id ?agent) (preset_name pc) t)"
    obtain result agent1 ts2 w2 where
      rn: "run (abort_called host) ?agent t None ?ts1 w1 = (result, agent1, ts2, w2)"
      by (cases "run (abort_called host) ?agent t None ?ts1 w1") auto
    have l0: "listeners agent0 = (\<lambda>ev l. l)"
      using na by (auto simp add: new_Agent_def Let_def split: prod.splits)
    let ?I = "\<lambda>s. done_results s = done_results ?ts1 \<and> started_tasks s = started_tasks ?ts1"
    have inv: "?I ts2"
    proof (rule run_invariant[of ?I, OF _ _ rn])
      show "?I ?ts1" by simp
      show "\<And>ev l. ?I l \<Longrightarrow> ?I (listeners ?agent ev l)"
        by (simp add: on_event_def l0 runAgent_listener_logs)
    qed
    obtain unspent bm where rl: "release (budget_mgr (emit ts2 (Agent_done result))) (agent_id ?agent) = (unspent, bm)"
      by (cases "release (budget_mgr (emit ts2 (Agent_done result))) (agent_id ?agent)") auto
    have "res = Inr result" "ts' = (emit ts2 (Agent_done result))\<lparr>budget_mgr := bm\<rparr>"
      using assms Inr Some na rn rl by (simp_all add: runAgent_def Let_def)
    then show ?thesis using inv by (simp add: emit_logs budget_update_logs)
  qed
qed

lemma schedule_subtask_logs:
  assumes "schedule_subtask host orch tid cfg m tls subtask ts w = (out, ts', w')"
  shows "done_results ts' = done_results ts @ (case out of Ran r \<Rightarrow> [r] | _ \<Rightarrow> [])
       \<and> started_tasks ts' = started_tasks ts @ (case out of Ran r \<Rightarrow> [description subtask] | _ \<Rightarrow> [])"
proof (cases "remaining (budget_mgr ts) \<le> 0")
  case True
  with assms show ?thesis by (auto simp add: schedule_subtask_def)
next
  case False
  obtain b bm1 where al: "allocate (budget_mgr ts) (''agent-'' @ show_int (st_id subtask))
                 (task_budget cfg * budgetMultiplier subtask) = (b, bm1)"
    by (cases "allocate (budget_mgr ts) (''agent-'' @ show_int (st_id subtask))
                 (task_budget cfg * budgetMultiplier subtask)") auto
  show ?thesis
  proof (cases "b \<le> 0")
    case True
    with assms False al show ?thesis by (auto simp add: schedule_subtask_def budget_update_logs)
  next
    case pos: False
    obtain res ts2 w2 where ra: "runAgent host orch tid (agentType subtask) (description subtask) m tls
                      b (ts\<lparr>budget_mgr := bm1\<rparr>) w = (res, ts2, w2)"
      by (cases "runAgent host orch tid (agentType subtask) (description subtask) m tls
                      b (ts\<lparr>budget_mgr := bm1\<rparr>) w") auto
    from runAgent_logs[OF ra] assms False al pos ra show ?thesis
      by (cases res) (auto simp add: schedule_subtask_def budget_update_logs)
  qed
qed

lemma topologicalSort_first_second:
  "topologicalSort [first_task d1 a1 c1, second_task d2 a2 c2]
     = [first_task d1 a1 c1, second_task d2 a2 c2]"
  "topologicalSort [second_task d2 a2 c2, first_task d1 a1 c1]
     = [first_task d1 a1 c1, second_task d2 a2 c2]"
  by (simp_all add: topologicalSort_def visit.simps first_task_def second_task_def)

lemma execute_sorted_pair:
  "execute_subtasks host orch tid cfg m tls [first_task d1 a1 c1, second_task d2 a2 c2] [] [] ts w
     = first_then_second host orch tid cfg m tls (first_task d1 a1 c1) (second_task d2 a2 c2) ts w"
  by (simp add: first_then_second_def schedule_subtask_def first_task_def second_task_def Let_def
        set_add_def split: prod.splits sum.splits)

lemma first_then_second_started:
  "started_tasks (state_of (first_then_second host orch tid cfg m tls t1 t2 ts w))
     = started_tasks ts @
       take (length (completed_of (first_then_second host orch tid cfg m tls t1 t2 ts w)))
         [description t1, description t2]"
proof -
  obtain o1 ts1 w1 where s1: "schedule_subtask host orch tid cfg m tls t1 ts w = (o1, ts1, w1)"
    by (cases "schedule_subtask host orch tid cfg m tls t1 ts w") auto
  obtain o2 ts2 w2 where s2: "schedule_subtask host orch tid cfg m tls t2 ts1 w1 = (o2, ts2, w2)"
    by (cases "schedule_subtask host orch tid cfg m tls t2 ts1 w1") auto
  from schedule_subtask_logs[OF s1] schedule_subtask_logs[OF s2] s1 s2 show ?thesis
    by (cases o1; cases o2)
       (simp_all add: first_then_second_def state_of_def completed_of_def)
qed

text \<open>
  C7. For the subtasks \<open>{id: 1, dependsOn: []}\<close> and \<open>{id: 2, dependsOn: [1]}\<close>, in either
  input order, the complex path executes subtask 1 strictly before subtask 2: what it
  does on the sorted list is to run the agent of subtask 1 and then, on the state that run
  left, the agent of subtask 2. The agents started, as the event log records them, are
  those of the completed ids in this order: none, subtask 1, or subtask 1 and then 2.
\<close>

theorem dependency_runs_first:
  "execute_subtasks host orch tid cfg m tls
      (topologicalSort [first_task d1 a1 c1, second_task d2 a2 c2]) [] [] ts w
     = first_then_second host orch tid cfg m tls
         (first_task d1 a1 c1) (second_task d2 a2 c2) ts w
   \<and> execute_subtasks host orch tid cfg m tls
      (topologicalSort [second_task d2 a2 c2, first_task d1 a1 c1]) [] [] ts w
     = first_then_second host orch tid cfg m tls
         (first_task d1 a1 c1) (second_task d2 a2 c2) ts w
   \<and> started_tasks (state_of (execute_subtasks host orch tid cfg m tls
        (topologicalSort [second_task d2 a2 c2, first_task d1 a1 c1]) [] [] ts w))
     = started_tasks ts @
       take (length (completed_of (execute_subtasks host orch tid cfg m tls
               (topologicalSort [second_task d2 a2 c2, first_task d1 a1 c1]) [] [] ts w)))
         [d1, d2]
   \<and> started_tasks (state_of (execute_subtasks host orch tid cfg m tls
        (topologicalSort [first_task d1 a1 c1, second_task d2 a2 c2]) [] [] ts w))
     = started_tasks ts @
       take (length (completed_of (execute_subtasks host orch tid cfg m tls
               (topologicalSort [first_task d1 a1 c1, second_task d2 a2 c2]) [] [] ts w)))
         [d1, d2]"
proof -
  have d: "description (first_task d1 a1 c1) = d1" "description (second_task d2 a2 c2) = d2"
    by (simp_all add: first_task_def second_task_def)
  show ?thesis
    unfolding topologicalSort_first_second execute_sorted_pair
    using first_then_second_started[of host orch tid cfg m tls
            "first_task d1 a1 c1" "second_task d2 a2 c2" ts w]
    by (simp only: d simp_thms)
qed

lemma good_plan_run:
  "\<exists>r1 r2 tsf.
     execute_subtasks (demo_host good_plan) (demo_orch good_plan 0.1) ''task-1'' demo_cfg
        ''claude-sonnet-4-5-20250929'' [] (topologicalSort good_plan) [] []
        \<lparr>budget_mgr = new_BudgetManager 5 None, events = []\<rparr> 0
       = (None, [1, 2], [r1, r2], tsf, 2)
     \<and> res_name r1 = ''Coder'' \<and> res_name r2 = ''Reviewer''
     \<and> started_tasks tsf = [''build'', ''check'']"
  by (simp add: eval_defs)

theorem dependency_runs_first_witness:
  "\<exists>r1 r2 tsf.
     first_then_second (demo_host good_plan) (demo_orch good_plan 0.1) ''task-1'' demo_cfg
        ''claude-sonnet-4-5-20250929'' []
        (first_task ''build'' ''coder'' ''simple'') (second_task ''check'' ''reviewer'' ''simple'')
        \<lparr>budget_mgr = new_BudgetManager 5 None, events = []\<rparr> 0
       = (None, [1, 2], [r1, r2], tsf, 2)
     \<and> execute_subtasks (demo_host good_plan) (demo_orch good_plan 0.1) ''task-1'' demo_cfg
        ''claude-sonnet-4-5-20250929'' [] (topologicalSort good_plan) [] []
        \<lparr>budget_mgr = new_BudgetManager 5 None, events = []\<rparr> 0
       = (None, [1, 2], [r1, r2], tsf, 2)
     \<and> res_name r1 = ''Coder'' \<and> res_name r2 = ''Reviewer''
     \<and> started_tasks tsf = [''build'', ''check'']"
proof -
  from good_plan_run obtain r1 r2 tsf where
    e: "execute_subtasks (demo_host good_plan) (demo_orch good_plan 0.1) ''task-1'' demo_cfg
        ''claude-sonnet-4-5-20250929'' [] (topologicalSort good_plan) [] []
        \<lparr>budget_mgr = new_BudgetManager 5 None, events = []\<rparr> 0
       = (None, [1, 2], [r1, r2], tsf, 2)"
    and n: "res_name r1 = ''Coder''" "res_name r2 = ''Reviewer''"
           "started_tasks tsf = [''build'', ''check'']"
    by blast
  from dependency_runs_first[of "demo_host good_plan" "demo_orch good_plan 0.1" "''task-1''"
      demo_cfg "''claude-sonnet-4-5-20250929''" "[]" "''build''" "''coder''" "''simple''"
      "''check''" "''reviewer''" "''simple''"
      "\<lparr>budget_mgr = new_BudgetManager 5 None, events = []\<rparr>" 0]
  have "execute_subtasks (demo_host good_plan) (demo_orch good_plan 0.1) ''task-1'' demo_cfg
        ''claude-sonnet-4-5-20250929'' [] (topologicalSort good_plan) [] []
        \<lparr>budget_mgr = new_BudgetManager 5 None, events = []\<rparr> 0
      = first_then_second (demo_host good_plan) (demo_orch good_plan 0.1) ''task-1'' demo_cfg
        ''claude-sonnet-4-5-20250929'' []
        (first_task ''build'' ''coder'' ''simple'') (second_task ''check'' ''reviewer'' ''simple'')
        \<lparr>budget_mgr = new_BudgetManager 5 None, events = []\<rparr> 0"
    by (simp only: good_plan_def)
  with e n show ?thesis by auto
qed

text \<open>
  The sort is what makes this hold: on the same plan taken in its input order, with the
  dependent subtask first, the loop skips subtask 2 and only subtask 1 is ever run.
\<close>

lemma unsorted_plan_skips_dependent:
  "completed_of (execute_subtasks (demo_host good_plan) (demo_orch good_plan 0.1) ''task-1''
      demo_cfg ''claude-sonnet-4-5-20250929'' [] good_plan [] []
      \<lparr>budget_mgr = new_BudgetManager 5 None, events = []\<rparr> 0) = [1]"
  by (simp add: eval_defs)

text \<open>
  C5, as the specification states it, fails: with a budget of 5 and a planner that spends
  1 and returns \<open>[]\<close>, the planner's allocation is 0.5 and the single coder agent is
  allocated 3.5, not \<open>5 - 0.5\<close>.
\<close>

theorem coder_budget_below_remainder:
  "\<exists>res ts orch1 w.
     runTask (demo_host []) (demo_orch [] 1) demo_cfg 0 = (Inr res, ts, orch1, w)
     \<and> parse_plan (demo_host []) (json_of_plan []) = []
     \<and> map res_name (agentResults res) = [''Coder'']
     \<and> agentBudgets (budget_mgr ts) ''planner''
           = Some \<lparr>agentId = ''planner'', allocated = 1/2, spent = 1\<rparr>
     \<and> agentBudgets (budget_mgr ts) ''single-coder''
           = Some \<lparr>agentId = ''single-coder'', allocated = 7/2, spent = 0\<rparr>
     \<and> (7/2 :: real) \<noteq> task_budget demo_cfg - 1/2"
  by (simp add: eval_defs)

lemma recordSpend_reserve: "reserve (snd (snd (recordSpend bm aid amount))) = reserve bm"
  by (simp add: recordSpend_def Let_def split: option.splits)

lemma planner_listener_keeps:
  "totalBudget (budget_mgr (planner_listener ev ts)) = totalBudget (budget_mgr ts)
   \<and> reserve (budget_mgr (planner_listener ev ts)) = reserve (budget_mgr ts)"
  by (cases ev) (simp_all add: recordSpend_totals recordSpend_reserve)

lemma planTask_keeps_total:
  assumes "planTask host orch t m tls bdg ts w = (res, ts1, w1)"
  shows "totalBudget (budget_mgr ts1) = totalBudget (budget_mgr ts)
         \<and> reserve (budget_mgr ts1) = reserve (budget_mgr ts)"
proof (cases "bdg \<le> 0")
  case True
  with assms show ?thesis by (simp add: planTask_def)
next
  case pos: False
  show ?thesis
  proof (cases "orch_getProvider orch m")
    case (Inl err)
    with assms pos show ?thesis by (simp add: planTask_def)
  next
    case (Inr prov)
    let ?cfg = "\<lparr>cfg_id = None, cfg_name = ''Planner'', model = m,
                       systemPrompt = preset_systemPrompt (the (AGENT_PRESETS ''planner'')),
                       provider = prov, tools = tls, budget = bdg, maxTurns = None\<rparr>"
    obtain agent0 w0 where
      na: "(new_Agent (uuid host) ?cfg w :: (TaskState, 'a) Agent \<times> 'a) = (agent0, w0)"
      by (cases "new_Agent (uuid host) ?cfg w :: (TaskState, 'a) Agent \<times> 'a") auto
    obtain result agent1 ts' w2 where
      rn: "run (\<lambda>w. False) (on_event agent0 planner_listener) (plan_prompt t) None ts w0
             = (result, agent1, ts', w2)"
      by (cases "run (\<lambda>w. False) (on_event agent0 planner_listener) (plan_prompt t) None ts w0")
         auto
    have l0: "listeners agent0 = (\<lambda>ev l. l)"
      using na by (auto simp add: new_Agent_def Let_def split: prod.splits)
    let ?I = "\<lambda>s. totalBudget (budget_mgr s) = totalBudget (budget_mgr ts)
                  \<and> reserve (budget_mgr s) = reserve (budget_mgr ts)"
    have "?I ts'"
    proof (rule run_invariant[of ?I, OF _ _ rn])
      show "?I ts" by simp
      show "\<And>ev l. ?I l \<Longrightarrow> ?I (listeners (on_event agent0 planner_listener) ev l)"
        by (simp add: on_event_def l0 planner_listener_keeps)
    qed
    moreover have "ts1 = ts'"
      using assms pos Inr na rn by (simp add: planTask_def Let_def)
    ultimately show ?thesis by simp
  qed
qed

lemma planTask_no_budget:
  "bdg \<le> 0 \<Longrightarrow> planTask host orch t m tls bdg ts w = (Inr [], ts, w)"
  by (simp add: planTask_def)

text \<open>
  C5, amended. Whenever planning yields an empty decomposition, the task makes exactly one
  \<open>runAgent\<close> call, with the coder preset and the original task text, and its result is
  the only agent result. The budget allocated to it is
  \<open>max(0, totalBudget - plannerAllocation - spend recorded while planning)\<close>, stored as the
  sub-ledger \<open>single-coder\<close>.
\<close>

theorem empty_plan_runs_single_coder:
  assumes fresh: "budget_mgr ts = new_BudgetManager (task_budget cfg) None"
      and alloc: "allocate (budget_mgr ts) ''planner'' (task_budget cfg * 0.1) = (planBudget, bm1)"
      and plan: "planTask host orch (task cfg) m tls planBudget (ts\<lparr>budget_mgr := bm1\<rparr>) w
                   = (Inr [], ts1, w1)"
      and coder: "agentBudget = max 0 (task_budget cfg - planBudget - totalSpent (budget_mgr ts1))"
  shows "runTask_try host orch tid cfg m tls ts w =
           (case runAgent host orch tid ''coder'' (task cfg) m tls agentBudget
                   (ts1\<lparr>budget_mgr := (budget_mgr ts1)\<lparr>agentBudgets := (agentBudgets (budget_mgr ts1))
                      (''single-coder'' \<mapsto>
                         \<lparr>agentId = ''single-coder'', allocated = agentBudget, spent = 0\<rparr>)\<rparr>\<rparr>) w1 of
              (Inl err, ts3, w3) \<Rightarrow> (Some err, [], ts3, w3)
            | (Inr result, ts3, w3) \<Rightarrow> (None, [result], ts3, w3))"
proof -
  let ?B = "task_budget cfg"
  have pb: "planBudget = min (?B * 0.1) (max 0 (?B - ?B * 0.1))" and
       bm1: "totalBudget bm1 = ?B" "reserve bm1 = ?B * 0.1" "totalSpent bm1 = 0"
    using alloc fresh by (auto simp add: allocate_def new_BudgetManager_def Let_def)
  have keep: "totalBudget (budget_mgr ts1) = ?B" "reserve (budget_mgr ts1) = ?B * 0.1"
    using planTask_keeps_total[OF plan] bm1 by simp_all
  have spent0: "totalSpent (budget_mgr ts1) = 0" if neg: "?B < 0"
  proof -
    from neg have "planBudget \<le> 0" using pb by simp
    from planTask_no_budget[OF this, of host orch "task cfg" m tls "ts\<lparr>budget_mgr := bm1\<rparr>" w] plan
    have "ts1 = ts\<lparr>budget_mgr := bm1\<rparr>" by simp
    then show ?thesis using bm1 by simp
  qed
  let ?s = "totalSpent (budget_mgr ts1)"
  have X: "min (max 0 (?B - ?s)) (max 0 (?B - ?s - ?B * 0.1)) = agentBudget"
  proof (cases "?B < 0")
    case True
    with spent0 pb coder show ?thesis by simp
  next
    case False
    then have "planBudget = ?B * 0.1" using pb by simp
    with False coder show ?thesis by (simp add: min_def max_def)
  qed
  have al: "allocate (budget_mgr ts1) ''single-coder'' (remaining (budget_mgr ts1)) =
      (agentBudget, (budget_mgr ts1)\<lparr>agentBudgets := (agentBudgets (budget_mgr ts1))
          (''single-coder'' \<mapsto> \<lparr>agentId = ''single-coder'', allocated = agentBudget, spent = 0\<rparr>)\<rparr>)"
    by (simp only: allocate_def remaining_def Let_def keep X)
  show ?thesis
    unfolding runTask_try_def alloc
    by (simp add: plan al Let_def)
qed

lemma empty_plan_planning:
  "\<exists>ts1.
     planTask (demo_host []) (demo_orch [] 1) (task demo_cfg) ''claude-sonnet-4-5-20250929'' []
        (fst (allocate (new_BudgetManager (task_budget demo_cfg) None) ''planner''
                (task_budget demo_cfg * 0.1)))
        (\<lparr>budget_mgr = new_BudgetManager (task_budget demo_cfg) None, events = []\<rparr>
           \<lparr>budget_mgr := snd (allocate (new_BudgetManager (task_budget demo_cfg) None) ''planner''
                (task_budget demo_cfg * 0.1))\<rparr>) 1
       = (Inr [], ts1, 2)
     \<and> totalSpent (budget_mgr ts1) = 1"
  by (simp add: eval_defs)

theorem empty_plan_runs_single_coder_witness:
  "\<exists>ts1.
     planTask (demo_host []) (demo_orch [] 1) (task demo_cfg) ''claude-sonnet-4-5-20250929'' []
        (1/2)
        (\<lparr>budget_mgr = new_BudgetManager (task_budget demo_cfg) None, events = []\<rparr>
           \<lparr>budget_mgr := snd (allocate (new_BudgetManager (task_budget demo_cfg) None) ''planner''
                (task_budget demo_cfg * 0.1))\<rparr>) 1
       = (Inr [], ts1, 2)
     \<and> runTask_try (demo_host []) (demo_orch [] 1) ''task-1'' demo_cfg
           ''claude-sonnet-4-5-20250929'' []
           \<lparr>budget_mgr = new_BudgetManager (task_budget demo_cfg) None, events = []\<rparr> 1
         = (case runAgent (demo_host []) (demo_orch [] 1) ''task-1'' ''coder'' (task demo_cfg)
                   ''claude-sonnet-4-5-20250929'' [] (7/2)
                   (ts1\<lparr>budget_mgr := (budget_mgr ts1)\<lparr>agentBudgets := (agentBudgets (budget_mgr ts1))
                      (''single-coder'' \<mapsto>
                         \<lparr>agentId = ''single-coder'', allocated = 7/2, spent = 0\<rparr>)\<rparr>\<rparr>) 2 of
              (Inl err, ts3, w3) \<Rightarrow> (Some err, [], ts3, w3)
            | (Inr result, ts3, w3) \<Rightarrow> (None, [result], ts3, w3))"
proof -
  let ?ts = "\<lparr>budget_mgr = new_BudgetManager (task_budget demo_cfg) None, events = []\<rparr>"
  let ?al = "allocate (new_BudgetManager (task_budget demo_cfg) None) ''planner''
                (task_budget demo_cfg * 0.1)"
  from empty_plan_planning obtain ts1 where
    plan: "planTask (demo_host []) (demo_orch [] 1) (task demo_cfg) ''claude-sonnet-4-5-20250929'' []
        (fst ?al) (?ts\<lparr>budget_mgr := snd ?al\<rparr>) 1 = (Inr [], ts1, 2)"
    and sp: "totalSpent (budget_mgr ts1) = 1"
    by blast
  have fresh: "budget_mgr ?ts = new_BudgetManager (task_budget demo_cfg) None" by simp
  have alloc: "allocate (budget_mgr ?ts) ''planner'' (task_budget demo_cfg * 0.1) = (fst ?al, snd ?al)"
    by simp
  have pb: "fst ?al = 1/2"
    by (simp add: allocate_def new_BudgetManager_def demo_cfg_def Let_def)
  have coder: "(7/2 :: real) = max 0 (task_budget demo_cfg - fst ?al - totalSpent (budget_mgr ts1))"
    by (simp add: sp demo_cfg_def allocate_def new_BudgetManager_def Let_def)
  note plan' = plan[unfolded pb]
  from empty_plan_runs_single_coder[OF fresh alloc plan coder, of "''task-1''"]
  have run: "runTask_try (demo_host []) (demo_orch [] 1) ''task-1'' demo_cfg
           ''claude-sonnet-4-5-20250929'' [] ?ts 1
         = (case runAgent (demo_host []) (demo_orch [] 1) ''task-1'' ''coder'' (task demo_cfg)
                   ''claude-sonnet-4-5-20250929'' [] (7/2)
                   (ts1\<lparr>budget_mgr := (budget_mgr ts1)\<lparr>agentBudgets := (agentBudgets (budget_mgr ts1))
                      (''single-coder'' \<mapsto>
                         \<lparr>agentId = ''single-coder'', allocated = 7/2, spent = 0\<rparr>)\<rparr>\<rparr>) 2 of
              (Inl err, ts3, w3) \<Rightarrow> (Some err, [], ts3, w3)
            | (Inr result, ts3, w3) \<Rightarrow> (None, [result], ts3, w3))" .
  show ?thesis by (rule exI[of _ ts1]) (rule conjI[OF plan' run])
qed

text \<open>
  C6 at a concrete run: a budget of 5, a plan of two simple subtasks, every backend call
  costing 0.10. Both agents run and return, and afterwards the sub-ledgers \<open>agent-1\<close> and
  \<open>agent-2\<close> are still in the manager with their full allocation and no spend recorded:
  \<open>runAgent\<close> records spend and calls \<open>release\<close> under the agent's generated id, which is
  not the key the allocation was stored under.
\<close>

theorem subtask_ledgers_never_released:
  "\<exists>res ts orch1 w.
     runTask (demo_host good_plan) (demo_orch good_plan 0.1) demo_cfg 0 = (Inr res, ts, orch1, w)
     \<and> map res_name (agentResults res) = [''Coder'', ''Reviewer'']
     \<and> map res_totalCost (agentResults res) = [1/10, 1/10]
     \<and> agentBudgets (budget_mgr ts) ''agent-1''
           = Some \<lparr>agentId = ''agent-1'', allocated = 1/2, spent = 0\<rparr>
     \<and> agentBudgets (budget_mgr ts) ''agent-2''
           = Some \<lparr>agentId = ''agent-2'', allocated = 1/2, spent = 0\<rparr>"
  by (simp add: eval_defs)

lemma execute_subtasks_logs:
  "execute_subtasks host orch tid cfg m tls sts completed results ts w
      = (exn, completed', results', ts', w')
   \<Longrightarrow> \<exists>new. results' = results @ new \<and> done_results ts' = done_results ts @ new"
proof (induction sts arbitrary: completed results ts w)
  case Nil
  then show ?case by simp
next
  case (Cons s sts)
  show ?case
  proof (cases "remaining (budget_mgr ts) \<le> 0")
    case True
    with Cons.prems show ?thesis by simp
  next
    case go: False
    show ?thesis
    proof (cases "list_all (\<lambda>d. d \<in> set completed) (dependsOn s)")
      case False
      with Cons.prems go
      have "execute_subtasks host orch tid cfg m tls sts completed results ts w
              = (exn, completed', results', ts', w')" by simp
      then show ?thesis by (rule Cons.IH)
    next
      case ready: True
      obtain b bm1 where al: "allocate (budget_mgr ts) (''agent-'' @ show_int (st_id s))
                 (task_budget cfg * budgetMultiplier s) = (b, bm1)"
        by (cases "allocate (budget_mgr ts) (''agent-'' @ show_int (st_id s))
                 (task_budget cfg * budgetMultiplier s)") auto
      show ?thesis
      proof (cases "b \<le> 0")
        case True
        with Cons.prems go ready al show ?thesis by (auto simp add: budget_update_logs)
      next
        case pos: False
        obtain res ts2 w2 where
          ra: "runAgent host orch tid (agentType s) (description s) m tls b
                 (ts\<lparr>budget_mgr := bm1\<rparr>) w = (res, ts2, w2)"
          by (cases "runAgent host orch tid (agentType s) (description s) m tls b
                 (ts\<lparr>budget_mgr := bm1\<rparr>) w") auto
        note lg = runAgent_logs[OF ra]
        show ?thesis
        proof (cases res)
          case (Inl err)
          with Cons.prems go ready al pos ra lg show ?thesis
            by (auto simp add: budget_update_logs)
        next
          case (Inr r)
          with Cons.prems go ready al pos ra
          have "execute_subtasks host orch tid cfg m tls sts (set_add completed (st_id s))
                  (results @ [r]) ts2 w2 = (exn, completed', results', ts', w')" by simp
          from Cons.IH[OF this] obtain new where
            "results' = (results @ [r]) @ new" "done_results ts' = done_results ts2 @ new" by blast
          with lg Inr show ?thesis by (intro exI[of _ "r # new"]) (simp add: budget_update_logs)
        qed
      qed
    qed
  qed
qed

lemma planTask_keeps_events:
  assumes "planTask host orch t m tls bdg ts w = (res, ts1, w1)"
  shows "events ts1 = events ts"
proof (cases "bdg \<le> 0")
  case True
  with assms show ?thesis by (simp add: planTask_def)
next
  case pos: False
  show ?thesis
  proof (cases "orch_getProvider orch m")
    case (Inl err)
    with assms pos show ?thesis by (simp add: planTask_def)
  next
    case (Inr prov)
    let ?cfg = "\<lparr>cfg_id = None, cfg_name = ''Planner'', model = m,
                       systemPrompt = preset_systemPrompt (the (AGENT_PRESETS ''planner'')),
                       provider = prov, tools = tls, budget = bdg, maxTurns = None\<rparr>"
    obtain agent0 w0 where
      na: "(new_Agent (uuid host) ?cfg w :: (TaskState, 'a) Agent \<times> 'a) = (agent0, w0)"
      by (cases "new_Agent (uuid host) ?cfg w :: (TaskState, 'a) Agent \<times> 'a") auto
    obtain result agent1 ts' w2 where
      rn: "run (\<lambda>w. False) (on_event agent0 planner_listener) (plan_prompt t) None ts w0
             = (result, agent1, ts', w2)"
      by (cases "run (\<lambda>w. False) (on_event agent0 planner_listener) (plan_prompt t) None ts w0")
         auto
    have l0: "listeners agent0 = (\<lambda>ev l. l)"
      using na by (auto simp add: new_Agent_def Let_def split: prod.splits)
    let ?I = "\<lambda>s. events s = events ts"
    have "?I ts'"
    proof (rule run_invariant[of ?I, OF _ _ rn])
      show "?I ts" by simp
      show "\<And>ev l. ?I l \<Longrightarrow> ?I (listeners (on_event agent0 planner_listener) ev l)"
        by (simp add: on_event_def l0 planner_listener_logs)
    qed
    moreover have "ts1 = ts'"
      using assms pos Inr na rn by (simp add: planTask_def Let_def)
    ultimately show ?thesis by simp
  qed
qed

lemma runTask_try_logs:
  assumes "runTask_try host orch tid cfg m tls ts w = (exn, results, ts1, w1)"
  shows "done_results ts1 = done_results ts @ results"
proof -
  obtain pb bm1 where al: "allocate (budget_mgr ts) ''planner'' (task_budget cfg * 0.1) = (pb, bm1)"
    by (cases "allocate (budget_mgr ts) ''planner'' (task_budget cfg * 0.1)") auto
  obtain pres tsp wp where
    pl: "planTask host orch (task cfg) m tls pb (ts\<lparr>budget_mgr := bm1\<rparr>) w = (pres, tsp, wp)"
    by (cases "planTask host orch (task cfg) m tls pb (ts\<lparr>budget_mgr := bm1\<rparr>) w") auto
  have dp: "done_results tsp = done_results ts"
    using planTask_keeps_events[OF pl] by (simp add: done_results_def)
  note body = assms[unfolded runTask_try_def al, simplified pl Let_def prod.case]
  show ?thesis
  proof (cases pres)
    case (Inl err)
    with body dp show ?thesis by auto
  next
    case (Inr subtasks)
    show ?thesis
    proof (cases "length subtasks = 0")
      case True
      obtain b bm2 where a2: "allocate (budget_mgr tsp) ''single-coder'' (remaining (budget_mgr tsp)) = (b, bm2)"
        by (cases "allocate (budget_mgr tsp) ''single-coder'' (remaining (budget_mgr tsp))") auto
      obtain res ts3 w3 where
        ra: "runAgent host orch tid ''coder'' (task cfg) m tls b (tsp\<lparr>budget_mgr := bm2\<rparr>) wp
               = (res, ts3, w3)"
        by (cases "runAgent host orch tid ''coder'' (task cfg) m tls b (tsp\<lparr>budget_mgr := bm2\<rparr>) wp")
           auto
      from runAgent_logs[OF ra] body Inr True a2 ra dp show ?thesis
        by (cases res) (auto simp add: budget_update_logs)
    next
      case False
      obtain e c r ts3 w3 where
        ex: "execute_subtasks host orch tid cfg m tls (topologicalSort subtasks) [] [] tsp wp
               = (e, c, r, ts3, w3)"
        by (cases "execute_subtasks host orch tid cfg m tls (topologicalSort subtasks) [] [] tsp wp")
           auto
      from execute_subtasks_logs[OF ex] body Inr False ex dp show ?thesis by auto
    qed
  qed
qed

lemma runTask_agentResults:
  assumes "uuid host w = (tid, w1)"
    and "getToolRegistry host orch w1 = (Inr tls, orch1, w2)"
    and "runTask_try host orch1 tid cfg
           (case task_model cfg of None \<Rightarrow> defaultModel host | Some x \<Rightarrow> x) tls
           (emit \<lparr>budget_mgr = new_BudgetManager (task_budget cfg) None, events = []\<rparr>
              (Started tid)) w2 = (exn, results, ts1, w3)"
  shows "\<exists>res ts. runTask host orch cfg w = (Inr res, ts, orch1, w3) \<and> agentResults res = results"
  using assms by (cases exn) (simp_all add: runTask_def Let_def)

text \<open>
  C2, as the specification states it, fails: when loading the tool registry throws, the
  task has been registered and \<open>started\<close> has been emitted, and \<open>runTask\<close> rejects
  with that exception instead of returning a result.
\<close>

theorem registry_failure_rejects:
  "fst (runTask broken_host (demo_orch [] 1) demo_cfg 0)
     = Inl (Error ''Cannot find module ./file.js'')
   \<and> events (fst (snd (runTask broken_host (demo_orch [] 1) demo_cfg 0)))
     = [Started ''3f2b8c1e-7a4d-4e9b-9c31-5d0e6f7a8b00'']"
  by (simp add: eval_defs)

text \<open>
  C2, amended. Once the tool registry has been obtained, \<open>runTask\<close> returns a result and
  does not throw, and the \<open>agentResults\<close> of the result are exactly the results of the
  agents that had returned, as the \<open>agent_done\<close> events record them in order. When an
  exception leaves planning or execution, the result has status \<open>error\<close>, its output is
  \<open>Error: \<close> followed by the exception's message, and \<open>error\<close> is the last event.
\<close>

theorem runTask_reports_exception:
  assumes reg: "getToolRegistry host orch (snd (uuid host w)) = (Inr tls, orch1, w2)"
  shows "\<exists>res ts orchf wf.
           runTask host orch cfg w = (Inr res, ts, orchf, wf)
           \<and> agentResults res = done_results ts
           \<and> (\<forall>err. fst (runTask_try host orch1 (fst (uuid host w)) cfg
                          (case task_model cfg of None \<Rightarrow> defaultModel host | Some x \<Rightarrow> x) tls
                          (emit \<lparr>budget_mgr = new_BudgetManager (task_budget cfg) None, events = []\<rparr>
                             (Started (fst (uuid host w)))) w2) = Some err
                \<longrightarrow> result_status res = TaskError
                    \<and> result_output res = ''Error: '' @ message err
                    \<and> last (events ts) = Task_error err)"
proof -
  obtain tid w1 where u: "uuid host w = (tid, w1)" by (cases "uuid host w") auto
  let ?m = "case task_model cfg of None \<Rightarrow> defaultModel host | Some x \<Rightarrow> x"
  let ?ts0 = "emit \<lparr>budget_mgr = new_BudgetManager (task_budget cfg) None, events = []\<rparr> (Started tid)"
  obtain exn results ts1 w3 where
    b: "runTask_try host orch1 tid cfg ?m tls ?ts0 w2 = (exn, results, ts1, w3)"
    by (cases "runTask_try host orch1 tid cfg ?m tls ?ts0 w2") auto
  have r: "getToolRegistry host orch w1 = (Inr tls, orch1, w2)" using reg u by simp
  have d: "done_results ts1 = results"
    using runTask_try_logs[OF b] by (simp add: done_results_def emit_def)
  show ?thesis
  proof (cases exn)
    case None
    with b r u d show ?thesis by (simp add: runTask_def Let_def emit_logs)
  next
    case (Some err)
    with b r u d show ?thesis by (simp add: runTask_def Let_def emit_logs) (simp add: emit_def)
  qed
qed

lemma bad_plan_body:
  "\<exists>r1 ts1 w3.
     runTask_try (demo_host bad_plan) ((demo_orch bad_plan 0.1)\<lparr>toolRegistry := Some []\<rparr>)
        (fst (uuid (demo_host bad_plan) 0)) demo_cfg
        (case task_model demo_cfg of None \<Rightarrow> defaultModel (demo_host bad_plan) | Some x \<Rightarrow> x) []
        (emit \<lparr>budget_mgr = new_BudgetManager (task_budget demo_cfg) None, events = []\<rparr>
           (Started (fst (uuid (demo_host bad_plan) 0)))) 1
       = (Some (Error (''Cannot read properties of undefined (reading '' @ [CHR 0x27] @
                       ''name'' @ [CHR 0x27] @ '')'')), [r1], ts1, w3)
     \<and> res_name r1 = ''Coder'' \<and> status r1 = Completed"
  by (simp add: eval_defs)

theorem runTask_reports_exception_witness:
  "\<exists>res ts orchf wf.
     runTask (demo_host bad_plan) (demo_orch bad_plan 0.1) demo_cfg 0 = (Inr res, ts, orchf, wf)
     \<and> agentResults res = done_results ts
     \<and> result_status res = TaskError
     \<and> result_output res = ''Error: Cannot read properties of undefined (reading '' @ [CHR 0x27] @
                       ''name'' @ [CHR 0x27] @ '')''
     \<and> map res_name (agentResults res) = [''Coder'']"
proof -
  have reg: "getToolRegistry (demo_host bad_plan) (demo_orch bad_plan 0.1)
               (snd (uuid (demo_host bad_plan) 0))
             = (Inr [], (demo_orch bad_plan 0.1)\<lparr>toolRegistry := Some []\<rparr>, 1)"
    by (simp add: getToolRegistry_def demo_host_def demo_orch_def demo_uuid_def)
  from bad_plan_body obtain r1 ts1 w3 where
    b: "runTask_try (demo_host bad_plan) ((demo_orch bad_plan 0.1)\<lparr>toolRegistry := Some []\<rparr>)
        (fst (uuid (demo_host bad_plan) 0)) demo_cfg
        (case task_model demo_cfg of None \<Rightarrow> defaultModel (demo_host bad_plan) | Some x \<Rightarrow> x) []
        (emit \<lparr>budget_mgr = new_BudgetManager (task_budget demo_cfg) None, events = []\<rparr>
           (Started (fst (uuid (demo_host bad_plan) 0)))) 1
       = (Some (Error (''Cannot read properties of undefined (reading '' @ [CHR 0x27] @
                       ''name'' @ [CHR 0x27] @ '')'')), [r1], ts1, w3)"
    and n: "res_name r1 = ''Coder''"
    by blast
  from runTask_reports_exception[OF reg, of demo_cfg] obtain res ts orchf wf where
    r: "runTask (demo_host bad_plan) (demo_orch bad_plan 0.1) demo_cfg 0 = (Inr res, ts, orchf, wf)"
    and d: "agentResults res = done_results ts"
    and x: "\<forall>err. fst (runTask_try (demo_host bad_plan) ((demo_orch bad_plan 0.1)\<lparr>toolRegistry := Some []\<rparr>)
        (fst (uuid (demo_host bad_plan) 0)) demo_cfg
        (case task_model demo_cfg of None \<Rightarrow> defaultModel (demo_host bad_plan) | Some x \<Rightarrow> x) []
        (emit \<lparr>budget_mgr = new_BudgetManager (task_budget demo_cfg) None, events = []\<rparr>
           (Started (fst (uuid (demo_host bad_plan) 0)))) 1) = Some err
         \<longrightarrow> result_status res = TaskError \<and> result_output res = ''Error: '' @ message err
             \<and> last (events ts) = Task_error err"
    by blast
  from x b have e: "result_status res = TaskError"
    "result_output res = ''Error: '' @ message (Error (''Cannot read properties of undefined (reading '' @ [CHR 0x27] @
                       ''name'' @ [CHR 0x27] @ '')''))"
    by simp_all
  have u: "uuid (demo_host bad_plan) 0
             = (fst (uuid (demo_host bad_plan) 0), snd (uuid (demo_host bad_plan) 0))"
    by simp
  from runTask_agentResults[OF u reg b] r have "agentResults res = [r1]"
    by auto
  with n have m: "map res_name (agentResults res) = [''Coder'']"
    by simp
  from e have o: "result_output res
      = ''Error: Cannot read properties of undefined (reading '' @ [CHR 0x27] @
                       ''name'' @ [CHR 0x27] @ '')''"
    by simp
  show ?thesis
    by (rule exI[of _ res], rule exI[of _ ts], rule exI[of _ orchf], rule exI[of _ wf],
        intro conjI) (rule r d e(1) o m)+
qed

end
